theory Spec2Isabelle
  imports Main
begin

section \<open>JSON values, Python exceptions and the feature ledger file\<close>

text \<open>
  The values \<^verbatim>\<open>json.load\<close> produces. Numbers are restricted to Python integers
  (floating point is outside the model); an object is an association list in key order,
  looked up by its first matching key.
\<close>

datatype json =
    JNull
  | JBool bool
  | JInt int
  | JStr string
  | JList "json list"
  | JObj "(string \<times> json) list"

text \<open>A raised Python exception: \<^verbatim>\<open>type(e).__name__\<close> and \<^verbatim>\<open>str(e)\<close>.\<close>

datatype exn = Exn (cls: string) (msg: string)

datatype 'a result = Raised exn | Returned 'a

fun py_type_name :: "json \<Rightarrow> string" where
  "py_type_name JNull = ''NoneType''"
| "py_type_name (JBool b) = ''bool''"
| "py_type_name (JInt i) = ''int''"
| "py_type_name (JStr s) = ''str''"
| "py_type_name (JList xs) = ''list''"
| "py_type_name (JObj kv) = ''dict''"

text \<open>Python truthiness of a JSON value (\<^verbatim>\<open>if x:\<close>).\<close>

fun truthy :: "json \<Rightarrow> bool" where
  "truthy JNull = False"
| "truthy (JBool b) = b"
| "truthy (JInt i) = (i \<noteq> 0)"
| "truthy (JStr s) = (s \<noteq> [])"
| "truthy (JList xs) = (xs \<noteq> [])"
| "truthy (JObj kv) = (kv \<noteq> [])"

text \<open>\<^verbatim>\<open>d.get(k, default)\<close> on a dict.\<close>

definition dict_get :: "(string \<times> json) list \<Rightarrow> string \<Rightarrow> json \<Rightarrow> json" where
  "dict_get kv k d = (case map_of kv k of None \<Rightarrow> d | Some v \<Rightarrow> v)"

text \<open>
  The integer a value is in arithmetic and comparisons: \<^verbatim>\<open>bool\<close> is a subclass of
  \<^verbatim>\<open>int\<close> (\<^verbatim>\<open>True == 1\<close>); every other JSON type has none.
\<close>

fun as_num :: "json \<Rightarrow> int option" where
  "as_num (JInt i) = Some i"
| "as_num (JBool b) = Some (if b then 1 else 0)"
| "as_num _ = None"

text \<open>A name between single quotes, as Python's messages print a type.\<close>

definition quoted :: "string \<Rightarrow> string" where
  "quoted s = CHR 0x27 # s @ [CHR 0x27]"

definition no_attribute_get :: "json \<Rightarrow> exn" where
  "no_attribute_get v =
     Exn ''AttributeError'' (quoted (py_type_name v) @ '' object has no attribute '' @ quoted ''get'')"

definition unsupported_sub :: "json \<Rightarrow> json \<Rightarrow> exn" where
  "unsupported_sub a b =
     Exn ''TypeError'' (''unsupported operand type(s) for -: ''
        @ quoted (py_type_name a) @ '' and '' @ quoted (py_type_name b))"

definition has_no_len :: "json \<Rightarrow> exn" where
  "has_no_len v =
     Exn ''TypeError'' (''object of type '' @ quoted (py_type_name v) @ '' has no len()'')"

text \<open>
  The state of \<^verbatim>\<open>project_dir / "feature_list.json"\<close>: absent; present but
  \<^verbatim>\<open>open\<close> raises; opened but \<^verbatim>\<open>json.load\<close> raises; or holding a JSON value.
\<close>

datatype ledger_file =
    Missing
  | Unreadable exn
  | Unparsable exn
  | Parsed json

text \<open>The progress snapshot \<^verbatim>\<open>{"total": .., "passing": .., "pending": ..}\<close>.\<close>

record progress =
  p_total :: int
  p_passing :: int
  p_pending :: int

definition zero_progress :: progress where
  "zero_progress = \<lparr>p_total = 0, p_passing = 0, p_pending = 0\<rparr>"

text \<open>The completion test of both run loops:
  \<^verbatim>\<open>progress["pending"] == 0 and progress["total"] > 0\<close>.\<close>

definition all_passing :: "progress \<Rightarrow> bool" where
  "all_passing p = (p_pending p = 0 \<and> p_total p > 0)"

text \<open>
  \<^verbatim>\<open>sum(1 for f in features if f.get("passes", False))\<close>: the elements are visited
  in order and the first one that is not a dict raises AttributeError.
\<close>

fun count_passes :: "json list \<Rightarrow> exn + int" where
  "count_passes [] = Inr 0"
| "count_passes (JObj kv # fs) =
     (case count_passes fs of
        Inl e \<Rightarrow> Inl e
      | Inr n \<Rightarrow> Inr ((if truthy (dict_get kv ''passes'' (JBool False)) then 1 else 0) + n))"
| "count_passes (f # fs) = Inl (no_attribute_get f)"

text \<open>
  The body of the \<^verbatim>\<open>try\<close> of \<^verbatim>\<open>AgentHarness.get_progress\<close> after
  \<^verbatim>\<open>json.load\<close>: a list is counted, anything else is asked for its
  \<^verbatim>\<open>total\<close> and \<^verbatim>\<open>passing\<close> entries, which are then subtracted.
\<close>

fun AgentHarness_progress_of :: "json \<Rightarrow> exn + progress" where
  "AgentHarness_progress_of (JList fs) =
     (case count_passes fs of
        Inl e \<Rightarrow> Inl e
      | Inr n \<Rightarrow> Inr \<lparr>p_total = int (length fs), p_passing = n, p_pending = int (length fs) - n\<rparr>)"
| "AgentHarness_progress_of (JObj kv) =
     (let t = dict_get kv ''total'' (JInt 0); p = dict_get kv ''passing'' (JInt 0)
      in case (as_num t, as_num p) of
           (Some a, Some b) \<Rightarrow> Inr \<lparr>p_total = a, p_passing = b, p_pending = a - b\<rparr>
         | _ \<Rightarrow> Inl (unsupported_sub t p))"
| "AgentHarness_progress_of v = Inl (no_attribute_get v)"

text \<open>Everything inside the \<^verbatim>\<open>try\<close>: \<^verbatim>\<open>open\<close>, \<^verbatim>\<open>json.load\<close>, the count.\<close>

fun AgentHarness_try_progress :: "ledger_file \<Rightarrow> exn + progress" where
  "AgentHarness_try_progress Missing = Inl (Exn ''FileNotFoundError'' ''[Errno 2] No such file or directory'')"
| "AgentHarness_try_progress (Unreadable e) = Inl e"
| "AgentHarness_try_progress (Unparsable e) = Inl e"
| "AgentHarness_try_progress (Parsed d) = AgentHarness_progress_of d"

definition AgentHarness_get_progress :: "ledger_file \<Rightarrow> progress" where
  "AgentHarness_get_progress f =
     (if f = Missing then zero_progress
      else case AgentHarness_try_progress f of
             Inl e \<Rightarrow> zero_progress
           | Inr p \<Rightarrow> p)"

text \<open>
  What \<^verbatim>\<open>len(features)\<close> and the iteration over \<^verbatim>\<open>features\<close> see: a list gives
  its elements, a string its characters, a dict its keys; the other types have no length.
\<close>

fun py_elements :: "json \<Rightarrow> exn + json list" where
  "py_elements (JList xs) = Inr xs"
| "py_elements (JStr s) = Inr (map (\<lambda>c. JStr [c]) s)"
| "py_elements (JObj kv) = Inr (map (\<lambda>(k, v). JStr k) kv)"
| "py_elements v = Inl (has_no_len v)"

text \<open>
  The body of the \<^verbatim>\<open>try\<close> of \<^verbatim>\<open>RealAgentHarness.get_progress\<close> after
  \<^verbatim>\<open>json.load\<close>:
  \<^verbatim>\<open>features = data if isinstance(data, list) else data.get("features", [])\<close>.
\<close>

fun RealAgentHarness_features :: "json \<Rightarrow> exn + json" where
  "RealAgentHarness_features (JList fs) = Inr (JList fs)"
| "RealAgentHarness_features (JObj kv) = Inr (dict_get kv ''features'' (JList []))"
| "RealAgentHarness_features v = Inl (no_attribute_get v)"

definition RealAgentHarness_progress_of :: "json \<Rightarrow> exn + progress" where
  "RealAgentHarness_progress_of d =
     (case RealAgentHarness_features d of
        Inl e \<Rightarrow> Inl e
      | Inr features \<Rightarrow>
          (case py_elements features of
             Inl e \<Rightarrow> Inl e
           | Inr fs \<Rightarrow>
               (case count_passes fs of
                  Inl e \<Rightarrow> Inl e
                | Inr n \<Rightarrow> Inr \<lparr>p_total = int (length fs), p_passing = n,
                                 p_pending = int (length fs) - n\<rparr>)))"

fun RealAgentHarness_try_progress :: "ledger_file \<Rightarrow> exn + progress" where
  "RealAgentHarness_try_progress Missing = Inl (Exn ''FileNotFoundError'' ''[Errno 2] No such file or directory'')"
| "RealAgentHarness_try_progress (Unreadable e) = Inl e"
| "RealAgentHarness_try_progress (Unparsable e) = Inl e"
| "RealAgentHarness_try_progress (Parsed d) = RealAgentHarness_progress_of d"

definition RealAgentHarness_get_progress :: "ledger_file \<Rightarrow> progress" where
  "RealAgentHarness_get_progress f =
     (if f = Missing then zero_progress
      else case RealAgentHarness_try_progress f of
             Inl e \<Rightarrow> zero_progress
           | Inr p \<Rightarrow> p)"

section \<open>Events, the Redis store and the process environment\<close>

datatype AgentType = INITIALIZER | CODING | PLANNER | QA

datatype RunStatus = QUEUED | RUNNING | COMPLETED | FAILED | CANCELLED

datatype EventType =
  STATUS | TOOL_CALL | TOOL_RESULT | MESSAGE | FEATURE | COMMIT | TEST | ERROR | COMPLETE

fun AgentType_value :: "AgentType \<Rightarrow> string" where
  "AgentType_value INITIALIZER = ''initializer''"
| "AgentType_value CODING = ''coding''"
| "AgentType_value PLANNER = ''planner''"
| "AgentType_value QA = ''qa''"

fun RunStatus_value :: "RunStatus \<Rightarrow> string" where
  "RunStatus_value QUEUED = ''queued''"
| "RunStatus_value RUNNING = ''running''"
| "RunStatus_value COMPLETED = ''completed''"
| "RunStatus_value FAILED = ''failed''"
| "RunStatus_value CANCELLED = ''cancelled''"

fun EventType_value :: "EventType \<Rightarrow> string" where
  "EventType_value STATUS = ''status''"
| "EventType_value TOOL_CALL = ''tool_call''"
| "EventType_value TOOL_RESULT = ''tool_result''"
| "EventType_value MESSAGE = ''message''"
| "EventType_value FEATURE = ''feature''"
| "EventType_value COMMIT = ''commit''"
| "EventType_value TEST = ''test''"
| "EventType_value ERROR = ''error''"
| "EventType_value COMPLETE = ''complete''"

text \<open>
  \<^verbatim>\<open>AgentEvent\<close>. The \<^verbatim>\<open>timestamp\<close> field is a wall-clock reading and is left
  out of the model; \<^verbatim>\<open>data\<close> is the payload dict in key order.
\<close>

datatype AgentEvent =
  AgentEvent (event_type: EventType) (event_run_id: string) (event_project_id: string)
             (event_step: int) (event_data: "(string \<times> json) list")

definition to_dict :: "AgentEvent \<Rightarrow> json" where
  "to_dict e = JObj
     [(''event'', JStr (EventType_value (event_type e))),
      (''runId'', JStr (event_run_id e)),
      (''projectId'', JStr (event_project_id e)),
      (''step'', JInt (event_step e)),
      (''data'', JObj (event_data e))]"

text \<open>The dict \<^verbatim>\<open>start_agent_run\<close> builds, and the job \<^verbatim>\<open>JobQueue.enqueue\<close> makes
  of it by adding \<^verbatim>\<open>id\<close> and \<^verbatim>\<open>status\<close> (\<^verbatim>\<open>created_at\<close> is a clock reading,
  left out).\<close>

record job_spec =
  job_run_id :: string
  job_project_id :: string
  job_agent_type :: string
  job_target_feature_id :: "string option"
  job_model :: string
  job_max_iterations :: "int option"
  job_app_spec_content :: "string option"

record job = job_spec +
  job_id :: string
  job_status :: string

text \<open>The Redis hash \<^verbatim>\<open>agent:job:{id}\<close>: its \<^verbatim>\<open>data\<close> and \<^verbatim>\<open>status\<close> fields,
  each of which may be absent.\<close>

record job_hash =
  hash_data :: "job option"
  hash_status :: "string option"

text \<open>What the process observably does, in order: a message published on a channel, or
  an \<^verbatim>\<open>asyncio.sleep\<close> of so many milliseconds.\<close>

datatype action = Publish string AgentEvent | Sleep nat

text \<open>
  Everything outside the harness objects: the Redis keys (the three key families
  \<^verbatim>\<open>agent:history:*\<close>, \<^verbatim>\<open>agent:job:*\<close> and \<^verbatim>\<open>agent:jobs:queue\<close> have different
  prefixes, so they are separate maps), the ledger and spec files per project directory,
  the source of \<^verbatim>\<open>uuid.uuid4()\<close> values (the \<open>n\<close>-th call returns the 32 hex digits
  \<open>uuid_source n\<close>), and the trace of observable actions. A Redis command is assumed to
  succeed and a file write to go through.
\<close>

record world =
  trace :: "action list"
  history :: "string \<rightharpoonup> AgentEvent list"
  history_ttl :: "string \<rightharpoonup> nat"
  job_hashes :: "string \<rightharpoonup> job_hash"
  queue :: "job list"
  feature_list :: "string \<Rightarrow> ledger_file"
  app_spec :: "string \<rightharpoonup> string"
  uuid_source :: "nat \<Rightarrow> string"
  uuid_calls :: nat
  generations_dir :: string

definition uuid4 :: "world \<Rightarrow> string \<times> world" where
  "uuid4 w = (uuid_source w (uuid_calls w), w\<lparr>uuid_calls := Suc (uuid_calls w)\<rparr>)"

text \<open>\<^verbatim>\<open>str(uuid)\<close>: the hex digits in groups of 8-4-4-4-12.\<close>

definition uuid_str :: "string \<Rightarrow> string" where
  "uuid_str hex = take 8 hex @ ''-'' @ take 4 (drop 8 hex) @ ''-'' @ take 4 (drop 12 hex)
     @ ''-'' @ take 4 (drop 16 hex) @ ''-'' @ drop 20 hex"

definition sleep :: "nat \<Rightarrow> world \<Rightarrow> world" where
  "sleep ms w = w\<lparr>trace := trace w @ [Sleep ms]\<rparr>"

text \<open>\<^verbatim>\<open>redis.lrange(key, 0, -1)\<close> on a history key: a missing key is the empty list.\<close>

definition lrange_all :: "world \<Rightarrow> string \<Rightarrow> AgentEvent list" where
  "lrange_all w rid = (case history w rid of None \<Rightarrow> [] | Some es \<Rightarrow> es)"

text \<open>
  \<^verbatim>\<open>EventPublisher.publish\<close>: publish on the project channel, \<^verbatim>\<open>lpush\<close> on the run's
  history (the newest event is the head), set the key's time to live to 3600 seconds. The
  stored value is the event; its serialisation \<^verbatim>\<open>json.dumps(event.to_dict())\<close> is
  applied when it is read back.
\<close>

definition publish :: "AgentEvent \<Rightarrow> world \<Rightarrow> world" where
  "publish e w = w
     \<lparr>trace := trace w @ [Publish (''agent:events:'' @ event_project_id e) e],
      history := (history w)(event_run_id e \<mapsto> e # lrange_all w (event_run_id e)),
      history_ttl := (history_ttl w)(event_run_id e \<mapsto> 3600)\<rparr>"

text \<open>What Redis does to a history key once its time to live has run out: the key is gone.\<close>

definition ttl_expired :: "string \<Rightarrow> world \<Rightarrow> world" where
  "ttl_expired rid w = w\<lparr>history := (history w)(rid := None),
                         history_ttl := (history_ttl w)(rid := None)\<rparr>"

text \<open>The events published so far, oldest first.\<close>

fun published :: "action list \<Rightarrow> AgentEvent list" where
  "published [] = []"
| "published (Publish c e # as) = e # published as"
| "published (Sleep ms # as) = published as"

section \<open>Python helpers\<close>

text \<open>\<^verbatim>\<open>str(n)\<close> for an integer, as the f-strings print it.\<close>

fun str_nat :: "nat \<Rightarrow> string" where
  "str_nat n = (if n < 10 then [''0123456789'' ! n]
                else str_nat (n div 10) @ [''0123456789'' ! (n mod 10)])"

declare str_nat.simps [simp del]

definition str_int :: "int \<Rightarrow> string" where
  "str_int i = (if i < 0 then CHR ''-'' # str_nat (nat (- i)) else str_nat (nat i))"

text \<open>\<^verbatim>\<open>d[k] = v\<close> on a dict: an existing key keeps its place, a new one goes last.\<close>

fun dict_set :: "string \<Rightarrow> json \<Rightarrow> (string \<times> json) list \<Rightarrow> (string \<times> json) list" where
  "dict_set k v [] = [(k, v)]"
| "dict_set k v ((k', v') # kv) = (if k = k' then (k, v) # kv else (k', v') # dict_set k v kv)"

text \<open>Python's index into a sequence of length \<open>n\<close>: negative indices count from the
  end, anything outside is an IndexError.\<close>

definition py_index :: "nat \<Rightarrow> int \<Rightarrow> nat option" where
  "py_index n i = (let j = (if i < 0 then int n + i else i)
                   in if 0 \<le> j \<and> j < int n then Some (nat j) else None)"

definition progress_json :: "progress \<Rightarrow> json" where
  "progress_json p = JObj [(''total'', JInt (p_total p)), (''passing'', JInt (p_passing p)),
                           (''pending'', JInt (p_pending p))]"

text \<open>\<^verbatim>\<open>with open(feature_list) as f: features = json.load(f)\<close>, outside any
  \<^verbatim>\<open>try\<close>.\<close>

fun load_features :: "ledger_file \<Rightarrow> exn + json" where
  "load_features Missing = Inl (Exn ''FileNotFoundError'' ''[Errno 2] No such file or directory'')"
| "load_features (Unreadable e) = Inl e"
| "load_features (Unparsable e) = Inl e"
| "load_features (Parsed d) = Inr d"

text \<open>\<^verbatim>\<open>x["passes"] = True\<close> on one element.\<close>

fun set_passes :: "json \<Rightarrow> exn + json" where
  "set_passes (JObj kv) = Inr (JObj (dict_set ''passes'' (JBool True) kv))"
| "set_passes (JList xs) = Inl (Exn ''TypeError'' ''list indices must be integers or slices, not str'')"
| "set_passes v = Inl (Exn ''TypeError''
     (quoted (py_type_name v) @ '' object does not support item assignment''))"

text \<open>
  \<^verbatim>\<open>features[i]["passes"] = True\<close>: a list is indexed and the element updated in
  place; a dict has only string keys, so the integer key is a KeyError; a string gives a
  one-character string, which cannot be assigned to; the other types are not subscriptable.
\<close>

fun mark_passes :: "json \<Rightarrow> int \<Rightarrow> exn + json" where
  "mark_passes (JList xs) i =
     (case py_index (length xs) i of
        None \<Rightarrow> Inl (Exn ''IndexError'' ''list index out of range'')
      | Some j \<Rightarrow> (case set_passes (xs ! j) of
                     Inl e \<Rightarrow> Inl e
                   | Inr x \<Rightarrow> Inr (JList (xs[j := x]))))"
| "mark_passes (JObj kv) i = Inl (Exn ''KeyError'' (str_int i))"
| "mark_passes (JStr s) i =
     (case py_index (length s) i of
        None \<Rightarrow> Inl (Exn ''IndexError'' ''string index out of range'')
      | Some j \<Rightarrow> Inl (Exn ''TypeError''
                      (quoted ''str'' @ '' object does not support item assignment'')))"
| "mark_passes v i = Inl (Exn ''TypeError'' (quoted (py_type_name v) @ '' object is not subscriptable''))"

section \<open>AgentHarness\<close>

text \<open>
  The attributes the two harness classes share, and the classes. The publisher of a
  harness is the Redis store of the world it runs in.
\<close>

record harness =
  run_id :: string
  project_id :: string
  project_dir :: string
  model :: string
  max_iterations :: "int option"
  step :: int
  features_completed :: int
  commits_made :: int

record AgentHarness = harness +
  status :: RunStatus

record RealAgentHarness = harness +
  app_spec_content :: "string option"

definition AgentHarness_init ::
  "string \<Rightarrow> string \<Rightarrow> string \<Rightarrow> string \<Rightarrow> int option \<Rightarrow> AgentHarness" where
  "AgentHarness_init rid pid dir mdl maxit =
     \<lparr>run_id = rid, project_id = pid, project_dir = dir, model = mdl, max_iterations = maxit,
      step = 0, features_completed = 0, commits_made = 0, status = QUEUED\<rparr>"

text \<open>
  \<^verbatim>\<open>emit\<close>, the same in both classes: the counter goes up first, the event carries
  the new value.
\<close>

definition emit ::
  "EventType \<Rightarrow> (string \<times> json) list \<Rightarrow> 'a harness_scheme \<Rightarrow> world
     \<Rightarrow> 'a harness_scheme \<times> world" where
  "emit t d h w =
     (let h' = h\<lparr>step := step h + 1\<rparr>
      in (h', publish (AgentEvent t (run_id h') (project_id h') (step h') d) w))"

definition is_first_run :: "'a harness_scheme \<Rightarrow> world \<Rightarrow> bool" where
  "is_first_run h w = (feature_list w (project_dir h) = Missing)"

text \<open>\<^verbatim>\<open>self.max_iterations and session > self.max_iterations\<close>: \<^verbatim>\<open>None\<close> and
  \<^verbatim>\<open>0\<close> are falsy.\<close>

definition limit_reached :: "int option \<Rightarrow> int \<Rightarrow> bool" where
  "limit_reached m session = (case m of None \<Rightarrow> False | Some n \<Rightarrow> n \<noteq> 0 \<and> session > n)"

definition paused_data :: "int option \<Rightarrow> (string \<times> json) list" where
  "paused_data m =
     [(''status'', JStr ''paused''),
      (''message'', JStr (''Reached max iterations ('' @
          (case m of None \<Rightarrow> ''None'' | Some n \<Rightarrow> str_int n) @ '')''))]"

definition complete_data :: "'a harness_scheme \<Rightarrow> progress \<Rightarrow> (string \<times> json) list" where
  "complete_data h p =
     [(''message'', JStr ''All features passing!''),
      (''featuresCompleted'', JInt (features_completed h)),
      (''commitsMade'', JInt (commits_made h)),
      (''progress'', progress_json p)]"

text \<open>The loop over \<^verbatim>\<open>steps\<close> of the two simulations: sleep, then a
  \<^verbatim>\<open>tool_call\<close> or a \<^verbatim>\<open>tool_result\<close> event.\<close>

fun emit_steps ::
  "nat \<Rightarrow> (string \<times> (string \<times> json) list) list \<Rightarrow> 'a harness_scheme \<Rightarrow> world
     \<Rightarrow> 'a harness_scheme \<times> world" where
  "emit_steps ms [] h w = (h, w)"
| "emit_steps ms ((etype, d) # steps) h w =
     (let w1 = sleep ms w;
          (h2, w2) = (if etype = ''tool_call'' then emit TOOL_CALL d h w1
                      else emit TOOL_RESULT d h w1)
      in emit_steps ms steps h2 w2)"

definition initializer_steps :: "(string \<times> (string \<times> json) list) list" where
  "initializer_steps =
     [(''tool_call'', [(''name'', JStr ''bash''), (''input'', JStr ''mkdir -p src tests'')]),
      (''tool_result'', [(''output'', JStr ''Created directories'')]),
      (''tool_call'', [(''name'', JStr ''write''),
         (''input'', JStr ''Creating feature_list.json with 200 test cases...'')]),
      (''tool_result'', [(''output'', JStr ''Created feature_list.json'')]),
      (''tool_call'', [(''name'', JStr ''write''), (''input'', JStr ''Creating init.sh...'')]),
      (''tool_result'', [(''output'', JStr ''Created init.sh'')]),
      (''tool_call'', [(''name'', JStr ''bash''),
         (''input'', JStr (''git init && git add . && git commit -m '' @ quoted ''Initial commit''))]),
      (''tool_result'', [(''output'', JStr ''Initialized git repository'')])]"

definition mock_features :: "json list" where
  "mock_features =
     map (\<lambda>i. JObj [(''id'', JInt i), (''name'', JStr (''Feature '' @ str_int i)),
                     (''passes'', JBool False)]) [1..200]"

definition simulate_initializer :: "AgentHarness \<Rightarrow> world \<Rightarrow> AgentHarness \<times> world" where
  "simulate_initializer h w =
     (let (h1, w1) = emit_steps 500 initializer_steps h w;
          w2 = w1\<lparr>feature_list := (feature_list w1)(project_dir h1 := Parsed (JList mock_features))\<rparr>
      in emit STATUS
           [(''status'', JStr ''initialized''),
            (''message'', JStr ''Project initialized with 200 features''),
            (''progress'', progress_json (AgentHarness_get_progress (feature_list w2 (project_dir h1))))]
           h1 w2)"

definition run_initializer :: "AgentHarness \<Rightarrow> world \<Rightarrow> AgentHarness \<times> world" where
  "run_initializer h w =
     (let (h1, w1) = emit STATUS
            [(''status'', JStr ''initializing''), (''message'', JStr ''Starting initializer agent...'')]
            h w
      in simulate_initializer h1 w1)"

definition coding_steps :: "int \<Rightarrow> (string \<times> (string \<times> json) list) list" where
  "coding_steps next_feature =
     [(''tool_call'', [(''name'', JStr ''read''),
         (''input'', JStr (''Reading feature #'' @ str_int next_feature @ '' requirements...''))]),
      (''tool_result'', [(''output'', JStr ''Requirements loaded'')]),
      (''tool_call'', [(''name'', JStr ''write''),
         (''input'', JStr (''Implementing feature #'' @ str_int next_feature @ ''...''))]),
      (''tool_result'', [(''output'', JStr ''Implementation complete'')]),
      (''tool_call'', [(''name'', JStr ''bash''), (''input'', JStr ''npm test'')])]"

text \<open>
  \<^verbatim>\<open>_run_coding_session\<close>. Reading the ledger back and marking the feature happen
  outside any \<^verbatim>\<open>try\<close>, so their exceptions leave the session after the events emitted
  so far.
\<close>

definition run_coding_session ::
  "int \<Rightarrow> AgentHarness \<Rightarrow> world \<Rightarrow> unit result \<times> AgentHarness \<times> world" where
  "run_coding_session session h w =
     (let progress = AgentHarness_get_progress (feature_list w (project_dir h));
          next_feature = p_passing progress + 1;
          (h1, w1) = emit FEATURE
             [(''action'', JStr ''started''), (''featureId'', JInt next_feature),
              (''name'', JStr (''Feature '' @ str_int next_feature))] h w;
          (h2, w2) = emit_steps 300 (coding_steps next_feature) h1 w1;
          (h3, w3) = emit TEST
             [(''featureId'', JInt next_feature), (''status'', JStr ''passed''),
              (''duration'', JInt 1234)] h2 w2
      in case load_features (feature_list w3 (project_dir h3)) of
           Inl e \<Rightarrow> (Raised e, h3, w3)
         | Inr features \<Rightarrow>
            (case mark_passes features (next_feature - 1) of
               Inl e \<Rightarrow> (Raised e, h3, w3)
             | Inr features' \<Rightarrow>
                (let w4 = w3\<lparr>feature_list := (feature_list w3)(project_dir h3 := Parsed features')\<rparr>;
                     (u, w5) = uuid4 w4;
                     commit_sha = take 7 u;
                     (h4, w6) = emit COMMIT
                        [(''sha'', JStr commit_sha),
                         (''message'', JStr (''feat: implement feature #'' @ str_int next_feature)),
                         (''filesChanged'', JInt 3)] h3 w5;
                     h5 = h4\<lparr>features_completed := features_completed h4 + 1,
                             commits_made := commits_made h4 + 1\<rparr>;
                     (h6, w7) = emit FEATURE
                        [(''action'', JStr ''completed''), (''featureId'', JInt next_feature),
                         (''status'', JStr ''passing'')] h5 w6
                 in (Returned (), h6, w7))))"

text \<open>How one pass through the body of a \<^verbatim>\<open>while True\<close> ends: at a
  \<^verbatim>\<open>break\<close>, at the end of the body (or a \<^verbatim>\<open>continue\<close>), or with an exception.\<close>

datatype control = Break | Continue | Raise exn

text \<open>
  The body of the \<^verbatim>\<open>while True\<close> of \<^verbatim>\<open>run_coding_loop\<close> for the value
  \<open>session\<close> of the loop variable: the limit check, the progress snapshot and the
  completion check, the \<^verbatim>\<open>running\<close> event, the session and the auto-continue delay.
\<close>

definition coding_iteration ::
  "int \<Rightarrow> AgentHarness \<Rightarrow> world \<Rightarrow> control \<times> AgentHarness \<times> world" where
  "coding_iteration session h w =
     (if limit_reached (max_iterations h) session then
        (let (h1, w1) = emit STATUS (paused_data (max_iterations h)) h w
         in (Break, h1, w1))
      else
        (let progress = AgentHarness_get_progress (feature_list w (project_dir h))
         in if all_passing progress then
              (let (h1, w1) = emit COMPLETE (complete_data h progress) h w
               in (Break, h1, w1))
            else
              (let (h1, w1) = emit STATUS
                     [(''status'', JStr ''running''), (''session'', JInt session),
                      (''progress'', progress_json progress)] h w
               in case run_coding_session session h1 w1 of
                    (Raised e, h2, w2) \<Rightarrow> (Raise e, h2, w2)
                  | (Returned u, h2, w2) \<Rightarrow> (Continue, h2, sleep 3000 w2))))"

text \<open>
  \<^verbatim>\<open>run_coding_loop\<close> from the value \<open>session\<close> of the loop variable on. The first
  argument bounds the number of passes through the body; \<open>None\<close> says the bound was
  too small for the loop to have ended.
\<close>

fun run_coding_loop ::
  "nat \<Rightarrow> int \<Rightarrow> AgentHarness \<Rightarrow> world \<Rightarrow> (unit result \<times> AgentHarness \<times> world) option" where
  "run_coding_loop 0 session h w = None"
| "run_coding_loop (Suc fuel) session h w =
     (case coding_iteration session h w of
        (Break, h1, w1) \<Rightarrow> Some (Returned (), h1, w1)
      | (Raise e, h1, w1) \<Rightarrow> Some (Raised e, h1, w1)
      | (Continue, h1, w1) \<Rightarrow> run_coding_loop fuel (session + 1) h1 w1)"

text \<open>The body of the \<^verbatim>\<open>try\<close> of \<^verbatim>\<open>AgentHarness.run\<close> after the status is set.\<close>

definition run_body ::
  "nat \<Rightarrow> AgentHarness \<Rightarrow> world \<Rightarrow> (unit result \<times> AgentHarness \<times> world) option" where
  "run_body fuel h w =
     (let (h1, w1) = (if is_first_run h w then run_initializer h w else (h, w))
      in run_coding_loop fuel 1 h1 w1)"

text \<open>\<^verbatim>\<open>AgentHarness.run\<close>: an exception of the body sets FAILED, emits the
  \<^verbatim>\<open>error\<close> event and is raised again.\<close>

definition run ::
  "nat \<Rightarrow> AgentHarness \<Rightarrow> world \<Rightarrow> (unit result \<times> AgentHarness \<times> world) option" where
  "run fuel h w =
     (case run_body fuel (h\<lparr>status := RUNNING\<rparr>) w of
        None \<Rightarrow> None
      | Some (Returned u, h1, w1) \<Rightarrow> Some (Returned (), h1\<lparr>status := COMPLETED\<rparr>, w1)
      | Some (Raised e, h1, w1) \<Rightarrow>
          (let (h2, w2) = emit ERROR [(''message'', JStr (msg e)), (''type'', JStr (cls e))]
                            (h1\<lparr>status := FAILED\<rparr>) w1
           in Some (Raised e, h2, w2)))"

section \<open>JobQueue, the API routes and the worker\<close>

text \<open>\<^verbatim>\<open>redis.hset(key, "status", s)\<close>: the hash is created when the key is new.\<close>

definition hset_status :: "string \<Rightarrow> string \<Rightarrow> world \<Rightarrow> world" where
  "hset_status jid s w = w\<lparr>job_hashes := (job_hashes w)(jid \<mapsto>
     (case job_hashes w jid of
        None \<Rightarrow> \<lparr>hash_data = None, hash_status = Some s\<rparr>
      | Some h \<Rightarrow> h\<lparr>hash_status := Some s\<rparr>))\<rparr>"

text \<open>\<^verbatim>\<open>JobQueue.enqueue\<close>: the job gets an id of its own, a fresh
  \<^verbatim>\<open>uuid4\<close>.\<close>

definition enqueue :: "job_spec \<Rightarrow> world \<Rightarrow> string \<times> world" where
  "enqueue spec w =
     (let (u, w1) = uuid4 w;
          jid = uuid_str u;
          j = \<lparr>job_run_id = job_run_id spec, job_project_id = job_project_id spec,
               job_agent_type = job_agent_type spec,
               job_target_feature_id = job_target_feature_id spec,
               job_model = job_model spec, job_max_iterations = job_max_iterations spec,
               job_app_spec_content = job_app_spec_content spec,
               job_id = jid, job_status = ''queued''\<rparr>
      in (jid, w1\<lparr>queue := j # queue w1,
                  job_hashes := (job_hashes w1)(jid \<mapsto>
                     \<lparr>hash_data = Some j, hash_status = Some ''queued''\<rparr>)\<rparr>))"

text \<open>\<^verbatim>\<open>JobQueue.dequeue\<close>: \<^verbatim>\<open>brpop\<close> takes the last element, or gives nothing when
  the queue stays empty for the timeout.\<close>

definition dequeue :: "world \<Rightarrow> job option \<times> world" where
  "dequeue w =
     (if queue w = [] then (None, w)
      else (let j = last (queue w);
                w1 = w\<lparr>queue := butlast (queue w)\<rparr>
            in (Some j, hset_status (job_id j) ''running'' w1)))"

definition complete :: "string \<Rightarrow> string \<Rightarrow> world \<Rightarrow> world" where
  "complete jid s w = hset_status jid s w"

text \<open>The dict \<^verbatim>\<open>get_job\<close> returns; \<open>view_data = None\<close> is the empty dict of a hash
  without \<^verbatim>\<open>data\<close>.\<close>

record job_view =
  view_id :: string
  view_status :: string
  view_data :: "job option"

definition get_job :: "string \<Rightarrow> world \<Rightarrow> job_view option" where
  "get_job jid w =
     (case job_hashes w jid of
        None \<Rightarrow> None
      | Some h \<Rightarrow>
          (if hash_data h = None \<and> hash_status h = None then None
           else Some \<lparr>view_id = jid,
                      view_status = (case hash_status h of None \<Rightarrow> ''unknown'' | Some s \<Rightarrow> s),
                      view_data = hash_data h\<rparr>))"

record StartRunRequest =
  req_project_id :: string
  req_agent_type :: AgentType
  req_target_feature_id :: "string option"
  req_model :: string
  req_max_iterations :: "int option"
  req_app_spec_content :: "string option"

record RunResponse =
  resp_run_id :: string
  resp_project_id :: string
  resp_status :: RunStatus
  resp_agent_type :: AgentType

datatype HTTPException = HTTPException (status_code: nat) (detail: string)

text \<open>\<^verbatim>\<open>POST /api/agent-runs\<close>. The value \<^verbatim>\<open>enqueue\<close> returns is not used.\<close>

definition start_agent_run :: "StartRunRequest \<Rightarrow> world \<Rightarrow> RunResponse \<times> world" where
  "start_agent_run request w =
     (let (u, w1) = uuid4 w;
          rid = uuid_str u;
          spec = \<lparr>job_run_id = rid, job_project_id = req_project_id request,
                  job_agent_type = AgentType_value (req_agent_type request),
                  job_target_feature_id = req_target_feature_id request,
                  job_model = req_model request,
                  job_max_iterations = req_max_iterations request,
                  job_app_spec_content = req_app_spec_content request\<rparr>;
          (jid, w2) = enqueue spec w1;
          w3 = publish (AgentEvent STATUS rid (req_project_id request) 0
                  [(''status'', JStr ''queued''), (''message'', JStr ''Job queued'')]) w2
      in (\<lparr>resp_run_id = rid, resp_project_id = req_project_id request,
           resp_status = QUEUED, resp_agent_type = req_agent_type request\<rparr>, w3))"

text \<open>\<^verbatim>\<open>GET /api/agent-runs/{run_id}\<close>.\<close>

definition get_agent_run :: "string \<Rightarrow> world \<Rightarrow> HTTPException + job_view" where
  "get_agent_run rid w =
     (case get_job rid w of
        None \<Rightarrow> Inl (HTTPException 404 ''Run not found'')
      | Some j \<Rightarrow> Inr j)"

text \<open>\<^verbatim>\<open>POST /api/agent-runs/{run_id}/stop\<close>.\<close>

definition stop_agent_run :: "string \<Rightarrow> world \<Rightarrow> world" where
  "stop_agent_run rid w = complete rid ''cancelled'' w"

text \<open>\<^verbatim>\<open>GET /api/agent-runs/{run_id}/events\<close>: the stored list, reversed.\<close>

definition get_run_events :: "string \<Rightarrow> world \<Rightarrow> json list" where
  "get_run_events rid w = map to_dict (rev (lrange_all w rid))"

text \<open>
  One turn of the \<^verbatim>\<open>while True\<close> of \<^verbatim>\<open>run_worker\<close>: nothing to do when the queue
  gave no job; otherwise the job is run and its hash gets \<^verbatim>\<open>completed\<close>, or
  \<^verbatim>\<open>failed\<close> when the run raised. \<open>None\<close>: the run did not end within the bound.
\<close>

definition worker_harness :: "job \<Rightarrow> world \<Rightarrow> AgentHarness" where
  "worker_harness j w =
     AgentHarness_init (job_run_id j) (job_project_id j)
       (generations_dir w @ ''/'' @ job_project_id j) (job_model j) (job_max_iterations j)"

definition run_worker_turn :: "nat \<Rightarrow> world \<Rightarrow> world option" where
  "run_worker_turn fuel w =
     (case dequeue w of
        (None, w1) \<Rightarrow> Some w1
      | (Some j, w1) \<Rightarrow>
          (case run fuel (worker_harness j w1) w1 of
             None \<Rightarrow> None
           | Some (Returned u, h, w2) \<Rightarrow> Some (complete (job_id j) ''completed'' w2)
           | Some (Raised e, h, w2) \<Rightarrow> Some (complete (job_id j) ''failed'' w2)))"

section \<open>RealAgentHarness\<close>

text \<open>
  The two prompt constants. All the code asks of a prompt is whether its lower-cased text
  contains \<^verbatim>\<open>first session\<close> or \<^verbatim>\<open>initializer\<close>: the initializer prompt does (it
  says \<^verbatim>\<open>FIRST SESSION\<close>), the coding prompt does not.
\<close>

datatype prompt = INITIALIZER_PROMPT | CODING_PROMPT

fun mentions_first_session :: "prompt \<Rightarrow> bool" where
  "mentions_first_session INITIALIZER_PROMPT = True"
| "mentions_first_session CODING_PROMPT = False"

text \<open>
  What the SDK client streams back. A \<^verbatim>\<open>ToolUseBlock\<close> carries its name and, when it
  has an \<^verbatim>\<open>input\<close>, the text \<^verbatim>\<open>str(block.input)\<close>; a \<^verbatim>\<open>ToolResultBlock\<close> the
  text of its content and its \<^verbatim>\<open>is_error\<close> flag.
\<close>

datatype block =
    TextBlock string
  | ToolUseBlock string "string option"
  | ToolResultBlock string bool
  | OtherBlock

datatype sdk_message = AssistantMessage "block list" | UserMessage "block list" | OtherMessage

text \<open>
  One call of the execution engine, as the controller sees it: the messages received,
  the exception that \<^verbatim>\<open>query\<close> or the stream raised after them (if any), and the ledger
  file the engine leaves behind.
\<close>

record engine_run =
  stream :: "sdk_message list"
  failure :: "exn option"
  ledger_after :: ledger_file

text \<open>The process environment of a RealAgentHarness: whether the SDK could be imported,
  the \<^verbatim>\<open>ANTHROPIC_API_KEY\<close> variable, and the engine (external, hence a parameter).\<close>

record env =
  sdk_available :: bool
  api_key :: "string option"
  engine :: "prompt \<Rightarrow> int \<Rightarrow> ledger_file \<Rightarrow> engine_run"

text \<open>\<^verbatim>\<open>str.lower\<close>, on the ASCII letters.\<close>

definition lower_char :: "char \<Rightarrow> char" where
  "lower_char c =
     (case map_of (zip ''ABCDEFGHIJKLMNOPQRSTUVWXYZ'' ''abcdefghijklmnopqrstuvwxyz'') c of
        None \<Rightarrow> c
      | Some l \<Rightarrow> l)"

definition lower :: "string \<Rightarrow> string" where
  "lower s = map lower_char s"

fun starts_with :: "string \<Rightarrow> string \<Rightarrow> bool" where
  "starts_with [] s = True"
| "starts_with (p # ps) [] = False"
| "starts_with (p # ps) (c # cs) = (p = c \<and> starts_with ps cs)"

text \<open>\<^verbatim>\<open>sub in s\<close> on strings.\<close>

fun contains :: "string \<Rightarrow> string \<Rightarrow> bool" where
  "contains sub [] = (sub = [])"
| "contains sub (c # cs) = (starts_with sub (c # cs) \<or> contains sub cs)"

definition RealAgentHarness_init ::
  "string \<Rightarrow> string \<Rightarrow> string \<Rightarrow> string \<Rightarrow> int option \<Rightarrow> string option \<Rightarrow> RealAgentHarness" where
  "RealAgentHarness_init rid pid dir mdl maxit spec =
     \<lparr>run_id = rid, project_id = pid, project_dir = dir, model = mdl, max_iterations = maxit,
      step = 0, features_completed = 0, commits_made = 0, app_spec_content = spec\<rparr>"

definition setup_project :: "RealAgentHarness \<Rightarrow> world \<Rightarrow> RealAgentHarness \<times> world" where
  "setup_project h w =
     (case app_spec_content h of
        None \<Rightarrow> (h, w)
      | Some content \<Rightarrow>
          (if content = [] then (h, w)
           else emit STATUS [(''status'', JStr ''setup''), (''message'', JStr ''Created app_spec.txt'')]
                  h (w\<lparr>app_spec := (app_spec w)(project_dir h \<mapsto> content)\<rparr>)))"

text \<open>
  \<^verbatim>\<open>_simulate_session\<close>: a fresh AgentHarness with the same run id, project and
  publisher does the work; its counters replace this harness's.
\<close>

definition simulate_session ::
  "prompt \<Rightarrow> int \<Rightarrow> RealAgentHarness \<Rightarrow> world
     \<Rightarrow> (string \<times> string) result \<times> RealAgentHarness \<times> world" where
  "simulate_session p session_number h w =
     (let mock_harness = AgentHarness_init (run_id h) (project_id h) (project_dir h) (model h) (Some 1)
      in case (if mentions_first_session p
               then (let (m, w1) = simulate_initializer mock_harness w in (Returned (), m, w1))
               else run_coding_session session_number mock_harness w) of
           (Raised e, m, w1) \<Rightarrow> (Raised e, h, w1)
         | (Returned u, m, w1) \<Rightarrow>
             (Returned (''continue'', []),
              h\<lparr>features_completed := features_completed m, commits_made := commits_made m\<rparr>, w1))"

text \<open>The blocks of an \<^verbatim>\<open>AssistantMessage\<close>, with the response text collected so far.\<close>

fun assistant_blocks ::
  "block list \<Rightarrow> string \<Rightarrow> RealAgentHarness \<Rightarrow> world \<Rightarrow> string \<times> RealAgentHarness \<times> world" where
  "assistant_blocks [] response_text h w = (response_text, h, w)"
| "assistant_blocks (TextBlock t # bs) response_text h w =
     (let (h1, w1) = emit MESSAGE [(''text'', JStr t)] h w
      in assistant_blocks bs (response_text @ t) h1 w1)"
| "assistant_blocks (ToolUseBlock name inp # bs) response_text h w =
     (let tool_input = (case inp of None \<Rightarrow> [] | Some i \<Rightarrow> take 200 i);
          (h1, w1) = emit TOOL_CALL [(''name'', JStr name), (''input'', JStr tool_input)] h w
      in assistant_blocks bs response_text h1 w1)"
| "assistant_blocks (b # bs) response_text h w = assistant_blocks bs response_text h w"

text \<open>The blocks of a \<^verbatim>\<open>UserMessage\<close>: a result that mentions \<^verbatim>\<open>blocked\<close> is
  flagged, an error result becomes an \<^verbatim>\<open>error\<close> event.\<close>

fun user_blocks :: "block list \<Rightarrow> RealAgentHarness \<Rightarrow> world \<Rightarrow> RealAgentHarness \<times> world" where
  "user_blocks [] h w = (h, w)"
| "user_blocks (ToolResultBlock content is_error # bs) h w =
     (let result = take 500 content;
          (h1, w1) =
            (if contains ''blocked'' (lower result) then
               emit TOOL_RESULT [(''blocked'', JBool True), (''output'', JStr result)] h w
             else if is_error then emit ERROR [(''output'', JStr result)] h w
             else emit TOOL_RESULT [(''output'', JStr ''Done'')] h w)
      in user_blocks bs h1 w1)"
| "user_blocks (b # bs) h w = user_blocks bs h w"

fun receive_response ::
  "sdk_message list \<Rightarrow> string \<Rightarrow> RealAgentHarness \<Rightarrow> world \<Rightarrow> string \<times> RealAgentHarness \<times> world" where
  "receive_response [] response_text h w = (response_text, h, w)"
| "receive_response (AssistantMessage bs # ms) response_text h w =
     (let (t, h1, w1) = assistant_blocks bs response_text h w
      in receive_response ms t h1 w1)"
| "receive_response (UserMessage bs # ms) response_text h w =
     (let (h1, w1) = user_blocks bs h w
      in receive_response ms response_text h1 w1)"
| "receive_response (OtherMessage # ms) response_text h w = receive_response ms response_text h w"

text \<open>
  \<^verbatim>\<open>run_agent_session\<close>. Without the SDK it simulates. With it, a missing or empty API
  key raises out of the session (the client is made outside the \<^verbatim>\<open>try\<close>); an
  exception of the engine is caught, reported as an \<^verbatim>\<open>error\<close> event and turned into
  the status \<^verbatim>\<open>"error"\<close>.
\<close>

definition run_agent_session ::
  "env \<Rightarrow> prompt \<Rightarrow> int \<Rightarrow> RealAgentHarness \<Rightarrow> world
     \<Rightarrow> (string \<times> string) result \<times> RealAgentHarness \<times> world" where
  "run_agent_session ev p session_number h w =
     (if \<not> sdk_available ev then
        (let (h1, w1) = emit STATUS
               [(''status'', JStr ''simulating''),
                (''message'', JStr ''Claude SDK not available, using simulation'')] h w
         in simulate_session p session_number h1 w1)
      else if api_key ev = None \<or> api_key ev = Some [] then
        (Raised (Exn ''ValueError'' ''ANTHROPIC_API_KEY environment variable not set''), h, w)
      else
        (let (h1, w1) = emit STATUS
               [(''status'', JStr ''running''), (''session'', JInt session_number),
                (''message'', JStr ''Sending prompt to Claude...'')] h w;
             r = engine ev p session_number (feature_list w1 (project_dir h1));
             (response_text, h2, w2) = receive_response (stream r) [] h1 w1;
             w3 = w2\<lparr>feature_list := (feature_list w2)(project_dir h2 := ledger_after r)\<rparr>
         in case failure r of
              None \<Rightarrow> (Returned (''continue'', response_text), h2, w3)
            | Some e \<Rightarrow>
                (let (h3, w4) = emit ERROR [(''message'', JStr (msg e)), (''type'', JStr (cls e))] h2 w3
                 in (Returned (''error'', msg e), h3, w4))))"

text \<open>
  The body of the \<^verbatim>\<open>while True\<close> of \<^verbatim>\<open>RealAgentHarness.run\<close> after
  \<^verbatim>\<open>session += 1\<close> has given \<open>session\<close>. A session that reports
  \<^verbatim>\<open>"error"\<close> is announced as retried, followed by the backoff sleep and
  \<^verbatim>\<open>continue\<close>; any other ends with the auto-continue announcement and sleep.
\<close>

definition RealAgentHarness_iteration ::
  "env \<Rightarrow> bool \<Rightarrow> int \<Rightarrow> RealAgentHarness \<Rightarrow> world \<Rightarrow> control \<times> RealAgentHarness \<times> world" where
  "RealAgentHarness_iteration ev is_first session h w =
     (if limit_reached (max_iterations h) session then
        (let (h1, w1) = emit STATUS (paused_data (max_iterations h)) h w
         in (Break, h1, w1))
      else
        (let progress = RealAgentHarness_get_progress (feature_list w (project_dir h))
         in if all_passing progress then
              (let (h1, w1) = emit COMPLETE (complete_data h progress) h w
               in (Break, h1, w1))
            else
              (let p = (if is_first \<and> session = 1 then INITIALIZER_PROMPT else CODING_PROMPT);
                   (h1, w1) = emit STATUS
                     [(''status'', JStr ''running''), (''session'', JInt session),
                      (''progress'', progress_json progress),
                      (''isInitializer'', JBool (is_first \<and> session = 1))] h w
               in case run_agent_session ev p session h1 w1 of
                    (Raised e, h2, w2) \<Rightarrow> (Raise e, h2, w2)
                  | (Returned (st, response), h2, w2) \<Rightarrow>
                      (if st = ''error'' then
                         (let (h3, w3) = emit STATUS
                                [(''status'', JStr ''error''),
                                 (''message'', JStr ''Session failed, will retry...'')] h2 w2
                          in (Continue, h3, sleep 3000 w3))
                       else
                         (let (h3, w3) = emit STATUS
                                [(''status'', JStr ''continuing''),
                                 (''message'', JStr (''Session '' @ str_int session
                                     @ '' complete, continuing in 3s...''))] h2 w2
                          in (Continue, h3, sleep 3000 w3))))))"

text \<open>
  The loop of \<^verbatim>\<open>RealAgentHarness.run\<close>; \<open>session0\<close> is the loop variable before its
  increment at the top of the body, and the value returned is the loop variable at the
  \<^verbatim>\<open>break\<close>. The first argument bounds the number of passes, as above.
\<close>

fun RealAgentHarness_run_loop ::
  "env \<Rightarrow> bool \<Rightarrow> nat \<Rightarrow> int \<Rightarrow> RealAgentHarness \<Rightarrow> world
     \<Rightarrow> (int result \<times> RealAgentHarness \<times> world) option" where
  "RealAgentHarness_run_loop ev is_first 0 session0 h w = None"
| "RealAgentHarness_run_loop ev is_first (Suc fuel) session0 h w =
     (let session = session0 + 1
      in case RealAgentHarness_iteration ev is_first session h w of
           (Break, h1, w1) \<Rightarrow> Some (Returned session, h1, w1)
         | (Raise e, h1, w1) \<Rightarrow> Some (Raised e, h1, w1)
         | (Continue, h1, w1) \<Rightarrow> RealAgentHarness_run_loop ev is_first fuel session h1 w1)"

text \<open>\<^verbatim>\<open>RealAgentHarness.run\<close>: no \<^verbatim>\<open>try\<close> here, an exception of a session leaves
  the run as it is.\<close>

definition RealAgentHarness_run ::
  "env \<Rightarrow> nat \<Rightarrow> RealAgentHarness \<Rightarrow> world \<Rightarrow> (unit result \<times> RealAgentHarness \<times> world) option" where
  "RealAgentHarness_run ev fuel h w =
     (let (h0, w0) = setup_project h w;
          is_first = is_first_run h0 w0
      in case RealAgentHarness_run_loop ev is_first fuel 0 h0 w0 of
           None \<Rightarrow> None
         | Some (Raised e, h1, w1) \<Rightarrow> Some (Raised e, h1, w1)
         | Some (Returned session, h1, w1) \<Rightarrow>
             (let (h2, w2) = emit STATUS
                    [(''status'', JStr ''complete''), (''totalSessions'', JInt session),
                     (''progress'', progress_json
                        (RealAgentHarness_get_progress (feature_list w1 (project_dir h1))))] h1 w1
              in Some (Returned (), h2, w2)))"

section \<open>Observing a run\<close>

text \<open>What a step from the world \<open>w\<close> to the world \<open>w'\<close> added to the trace, and the
  events in it, oldest first; \<open>extends\<close> says that the old trace is still the beginning
  of the new one.\<close>

definition new_actions :: "world \<Rightarrow> world \<Rightarrow> action list" where
  "new_actions w w' = drop (length (trace w)) (trace w')"

definition new_events :: "world \<Rightarrow> world \<Rightarrow> AgentEvent list" where
  "new_events w w' = published (new_actions w w')"

definition extends :: "world \<Rightarrow> world \<Rightarrow> bool" where
  "extends w w' = (take (length (trace w)) (trace w') = trace w)"

text \<open>A \<^verbatim>\<open>status\<close> event whose payload has the given \<^verbatim>\<open>status\<close>.\<close>

definition is_status :: "string \<Rightarrow> AgentEvent \<Rightarrow> bool" where
  "is_status s e = (event_type e = STATUS \<and> map_of (event_data e) ''status'' = Some (JStr s))"

text \<open>The \<^verbatim>\<open>message\<close> of an event's payload, empty when it has none.\<close>

definition message_of :: "AgentEvent \<Rightarrow> string" where
  "message_of e = (case map_of (event_data e) ''message'' of Some (JStr m) \<Rightarrow> m | _ \<Rightarrow> [])"

text \<open>The stored status of a job, when its hash exists and has one.\<close>

definition stored_status :: "string \<Rightarrow> world \<Rightarrow> string option" where
  "stored_status jid w = (case job_hashes w jid of None \<Rightarrow> None | Some h \<Rightarrow> hash_status h)"

text \<open>An event that is neither the \<^verbatim>\<open>complete\<close> event nor the \<^verbatim>\<open>paused\<close>
  announcement.\<close>

definition inner_event :: "AgentEvent \<Rightarrow> bool" where
  "inner_event e = (event_type e \<noteq> COMPLETE \<and> \<not> is_status ''paused'' e)"

text \<open>The step from \<open>w\<close> to \<open>w'\<close> only added to the trace, and every event it
  published satisfies \<open>P\<close>.\<close>

definition emits_only :: "(AgentEvent \<Rightarrow> bool) \<Rightarrow> world \<Rightarrow> world \<Rightarrow> bool" where
  "emits_only P w w' = (extends w w' \<and> list_all P (new_events w w'))"

section \<open>Example inputs\<close>

text \<open>An empty Redis, no project files, and a uuid source that counts.\<close>

definition example_world :: world where
  "example_world =
     \<lparr>trace = [], history = Map.empty, history_ttl = Map.empty, job_hashes = Map.empty,
      queue = [], feature_list = (\<lambda>d. Missing), app_spec = Map.empty,
      uuid_source = (\<lambda>n. ''0000000000000000000000000000000'' @ str_nat n), uuid_calls = 0,
      generations_dir = ''generations''\<rparr>"

definition example_request :: "int option \<Rightarrow> StartRunRequest" where
  "example_request maxit =
     \<lparr>req_project_id = ''p'', req_agent_type = CODING, req_target_feature_id = None,
      req_model = ''m'', req_max_iterations = maxit, req_app_spec_content = None\<rparr>"

definition example_feature :: "int \<Rightarrow> bool \<Rightarrow> json" where
  "example_feature i b =
     JObj [(''id'', JInt i), (''name'', JStr (''Feature '' @ str_int i)), (''passes'', JBool b)]"

text \<open>The world after a request with the given session cap was accepted, with the given
  ledger file in that project's directory.\<close>

definition example_queued :: "int option \<Rightarrow> ledger_file \<Rightarrow> world" where
  "example_queued maxit f =
     (let w = snd (start_agent_run (example_request maxit) example_world)
      in w\<lparr>feature_list := (feature_list w)(''generations/p'' := f)\<rparr>)"

section \<open>Properties of the progress readers\<close>




section \<open>Projections of the world after a primitive step\<close>

lemma publish_proj:
  "trace (publish e w) = trace w @ [Publish (''agent:events:'' @ event_project_id e) e]"
  "job_hashes (publish e w) = job_hashes w"
  "queue (publish e w) = queue w"
  "feature_list (publish e w) = feature_list w"
  "app_spec (publish e w) = app_spec w"
  "uuid_source (publish e w) = uuid_source w"
  "uuid_calls (publish e w) = uuid_calls w"
  "generations_dir (publish e w) = generations_dir w"
  by (simp_all add: publish_def)

lemma sleep_proj:
  "trace (sleep ms w) = trace w @ [Sleep ms]"
  "history (sleep ms w) = history w"
  "job_hashes (sleep ms w) = job_hashes w"
  "queue (sleep ms w) = queue w"
  "feature_list (sleep ms w) = feature_list w"
  "uuid_source (sleep ms w) = uuid_source w"
  "uuid_calls (sleep ms w) = uuid_calls w"
  "generations_dir (sleep ms w) = generations_dir w"
  by (simp_all add: sleep_def)

lemma hset_status_proj:
  "trace (hset_status j s w) = trace w"
  "history (hset_status j s w) = history w"
  "queue (hset_status j s w) = queue w"
  "feature_list (hset_status j s w) = feature_list w"
  "uuid_source (hset_status j s w) = uuid_source w"
  "uuid_calls (hset_status j s w) = uuid_calls w"
  "generations_dir (hset_status j s w) = generations_dir w"
  "stored_status j (hset_status j s w) = Some s"
  by (simp_all add: hset_status_def stored_status_def split: option.splits)

lemma emit_eq:
  "emit t d h w = (h\<lparr>step := step h + 1\<rparr>,
                   publish (AgentEvent t (run_id h) (project_id h) (step h + 1) d) w)"
  by (simp add: emit_def Let_def)

lemma published_append [simp]: "published (as @ bs) = published as @ published bs"
  by (induction as rule: published.induct) simp_all

lemma extendsI: "trace w' = trace w @ as \<Longrightarrow> extends w w' \<and> new_actions w w' = as"
  by (simp add: extends_def new_actions_def)

lemma extends_refl [simp]: "extends w w" "new_events w w = []"
  by (simp_all add: extends_def new_events_def new_actions_def)

lemma extends_trans:
  assumes "extends w w1" "extends w1 w2"
  shows "extends w w2" "new_events w w2 = new_events w w1 @ new_events w1 w2"
proof -
  from assms(1) have 1: "trace w1 = trace w @ new_actions w w1"
    by (metis append_take_drop_id extends_def new_actions_def)
  from assms(2) have 2: "trace w2 = trace w1 @ new_actions w1 w2"
    by (metis append_take_drop_id extends_def new_actions_def)
  from 1 2 have 3: "trace w2 = trace w @ (new_actions w w1 @ new_actions w1 w2)" by simp
  from extendsI [OF 3] show "extends w w2" "new_events w w2 = new_events w w1 @ new_events w1 w2"
    by (simp_all add: new_events_def)
qed

lemma extends_publish [simp]:
  "extends w (publish e w)" "new_events w (publish e w) = [e]"
  by (simp_all add: extends_def new_events_def new_actions_def publish_proj)

lemma extends_sleep [simp]:
  "extends w (sleep ms w)" "new_events w (sleep ms w) = []"
  by (simp_all add: extends_def new_events_def new_actions_def sleep_proj)

section \<open>One session, then the pause\<close>

text \<open>The session, when the ledger can be marked.\<close>

lemma run_coding_session_ok:
  assumes "load_features (feature_list w (project_dir h)) = Inr fs"
    and "mark_passes fs (p_passing (AgentHarness_get_progress (feature_list w (project_dir h)))) = Inr fs'"
    and "run_coding_session session h w = (r, h', w')"
  shows "r = Returned ()"
    and "step h' = step h + 9"
    and "max_iterations h' = max_iterations h \<and> run_id h' = run_id h \<and> project_id h' = project_id h
          \<and> project_dir h' = project_dir h \<and> status h' = status h"
    and "features_completed h' = features_completed h + 1 \<and> commits_made h' = commits_made h + 1"
    and "job_hashes w' = job_hashes w \<and> queue w' = queue w
          \<and> feature_list w' = (feature_list w)(project_dir h := Parsed fs')"
    and "extends w w'"
    and "map event_type (new_events w w')
           = [FEATURE, TOOL_CALL, TOOL_RESULT, TOOL_CALL, TOOL_RESULT, TOOL_CALL, TEST, COMMIT, FEATURE]"
    and "map event_step (new_events w w') = map (\<lambda>k. step h + k) [1, 2, 3, 4, 5, 6, 7, 8, 9]"
    and "\<forall>e \<in> set (new_events w w'). event_run_id e = run_id h \<and> event_project_id e = project_id h"
  using assms
  by (auto simp: run_coding_session_def emit_eq coding_steps_def Let_def publish_proj sleep_proj
      uuid4_def extends_def new_events_def new_actions_def)

lemma count_passes_objects:
  assumes "\<forall>f \<in> set fs. \<exists>kv. f = JObj kv"
  shows "\<exists>n. count_passes fs = Inr n \<and> 0 \<le> n \<and> n \<le> int (length fs)"
  using assms
proof (induction fs)
  case Nil
  then show ?case by simp
next
  case (Cons f fs)
  then obtain kv where f: "f = JObj kv" by auto
  from Cons obtain n where "count_passes fs = Inr n" "0 \<le> n" "n \<le> int (length fs)" by auto
  with f show ?case by simp
qed

lemma set_passes_object: "set_passes (JObj kv) = Inr (JObj (dict_set ''passes'' (JBool True) kv))"
  by simp

text \<open>A ledger that is a non-empty list of objects, not all of them passing: the progress
  snapshot counts it, and the next feature can be marked.\<close>

lemma list_ledger_progress:
  assumes objs: "\<forall>f \<in> set fs. \<exists>kv. f = JObj kv"
  shows "\<exists>n. 0 \<le> n \<and> n \<le> int (length fs)
           \<and> AgentHarness_get_progress (Parsed (JList fs))
               = \<lparr>p_total = int (length fs), p_passing = n, p_pending = int (length fs) - n\<rparr>"
proof -
  from count_passes_objects [OF objs] obtain n where
    "count_passes fs = Inr n" "0 \<le> n" "n \<le> int (length fs)" by auto
  then show ?thesis by (auto simp: AgentHarness_get_progress_def)
qed

lemma list_ledger_markable:
  assumes objs: "\<forall>f \<in> set fs. \<exists>kv. f = JObj kv"
    and open_work: "p_pending (AgentHarness_get_progress (Parsed (JList fs))) \<noteq> 0"
  shows "\<exists>fs'. mark_passes (JList fs) (p_passing (AgentHarness_get_progress (Parsed (JList fs)))) = Inr fs'"
proof -
  from list_ledger_progress [OF objs] obtain n where n: "0 \<le> n" "n \<le> int (length fs)"
    and p: "AgentHarness_get_progress (Parsed (JList fs))
               = \<lparr>p_total = int (length fs), p_passing = n, p_pending = int (length fs) - n\<rparr>"
    by auto
  from p open_work n have lt: "n < int (length fs)" by simp
  with n have idx: "py_index (length fs) n = Some (nat n)" by (simp add: py_index_def)
  from lt n have "nat n < length fs" by simp
  then have "fs ! nat n \<in> set fs" by simp
  with objs obtain kv where "fs ! nat n = JObj kv" by auto
  with idx p show ?thesis by simp
qed

lemma coding_iteration_paused:
  assumes "limit_reached (max_iterations h) session"
  shows "coding_iteration session h w =
           (Break, h\<lparr>step := step h + 1\<rparr>,
            publish (AgentEvent STATUS (run_id h) (project_id h) (step h + 1)
                       (paused_data (max_iterations h))) w)"
  using assms by (simp add: coding_iteration_def emit_eq)

lemma coding_iteration_complete:
  assumes "\<not> limit_reached (max_iterations h) session"
    and "all_passing (AgentHarness_get_progress (feature_list w (project_dir h)))"
  shows "coding_iteration session h w =
           (Break, h\<lparr>step := step h + 1\<rparr>,
            publish (AgentEvent COMPLETE (run_id h) (project_id h) (step h + 1)
                       (complete_data h (AgentHarness_get_progress (feature_list w (project_dir h))))) w)"
  using assms by (simp add: coding_iteration_def emit_eq Let_def)

lemma is_status_running [simp]:
  "is_status s (AgentEvent STATUS r p k ((''status'', JStr s') # d)) = (s = s')"
  by (auto simp: is_status_def)

lemma is_status_other [simp]: "t \<noteq> STATUS \<Longrightarrow> \<not> is_status s (AgentEvent t r p k d)"
  by (simp add: is_status_def)

lemma coding_iteration_session:
  assumes nl: "\<not> limit_reached (max_iterations h) session"
    and np: "\<not> all_passing (AgentHarness_get_progress (feature_list w (project_dir h)))"
    and ld: "load_features (feature_list w (project_dir h)) = Inr fs"
    and mk: "mark_passes fs (p_passing (AgentHarness_get_progress (feature_list w (project_dir h)))) = Inr fs'"
    and it: "coding_iteration session h w = (c, h', w')"
  shows "c = Continue"
    and "step h' = step h + 10"
    and "max_iterations h' = max_iterations h \<and> run_id h' = run_id h \<and> project_id h' = project_id h
          \<and> project_dir h' = project_dir h \<and> status h' = status h"
    and "job_hashes w' = job_hashes w \<and> queue w' = queue w
          \<and> feature_list w' = (feature_list w)(project_dir h := Parsed fs')"
    and "extends w w'"
    and "map event_type (new_events w w')
           = [STATUS, FEATURE, TOOL_CALL, TOOL_RESULT, TOOL_CALL, TOOL_RESULT, TOOL_CALL, TEST, COMMIT, FEATURE]"
    and "map event_step (new_events w w') = map (\<lambda>k. step h + k) [1, 2, 3, 4, 5, 6, 7, 8, 9, 10]"
    and "is_status ''running'' (hd (new_events w w'))"
    and "\<forall>e \<in> set (new_events w w'). event_run_id e = run_id h \<and> event_project_id e = project_id h"
proof -
  let ?h1 = "h\<lparr>step := step h + 1\<rparr>"
  let ?e = "AgentEvent STATUS (run_id h) (project_id h) (step h + 1)
              [(''status'', JStr ''running''), (''session'', JInt session),
               (''progress'', progress_json (AgentHarness_get_progress (feature_list w (project_dir h))))]"
  let ?w1 = "publish ?e w"
  obtain r h2 w2 where s: "run_coding_session session ?h1 ?w1 = (r, h2, w2)"
    by (cases "run_coding_session session ?h1 ?w1") auto
  have ld1: "load_features (feature_list ?w1 (project_dir ?h1)) = Inr fs"
    using ld by (simp add: publish_proj)
  have mk1: "mark_passes fs (p_passing (AgentHarness_get_progress (feature_list ?w1 (project_dir ?h1)))) = Inr fs'"
    using mk by (simp add: publish_proj)
  note ok = run_coding_session_ok [OF ld1 mk1 s]
  from nl np s ok(1) it have res: "c = Continue" "h' = h2" "w' = sleep 3000 w2"
    by (simp_all add: coding_iteration_def emit_eq Let_def)
  have e1: "extends w w2" and n1: "new_events w w2 = ?e # new_events ?w1 w2"
    using extends_trans [OF extends_publish(1) ok(6)] by simp_all
  have e2: "extends w w'" and n2: "new_events w w' = ?e # new_events ?w1 w2"
    using extends_trans [OF e1, of w'] n1 res by simp_all
  show "c = Continue" by (rule res)
  show "step h' = step h + 10" using ok(2) res by simp
  show "max_iterations h' = max_iterations h \<and> run_id h' = run_id h \<and> project_id h' = project_id h
          \<and> project_dir h' = project_dir h \<and> status h' = status h"
    using ok(3) res by simp
  show "job_hashes w' = job_hashes w \<and> queue w' = queue w
          \<and> feature_list w' = (feature_list w)(project_dir h := Parsed fs')"
    using ok(5) res by (simp add: sleep_proj publish_proj)
  show "extends w w'" by (rule e2)
  show "map event_type (new_events w w')
           = [STATUS, FEATURE, TOOL_CALL, TOOL_RESULT, TOOL_CALL, TOOL_RESULT, TOOL_CALL, TEST, COMMIT, FEATURE]"
    using ok(7) n2 by simp
  show "map event_step (new_events w w') = map (\<lambda>k. step h + k) [1, 2, 3, 4, 5, 6, 7, 8, 9, 10]"
    using ok(8) n2 by simp
  show "is_status ''running'' (hd (new_events w w'))" using n2 by simp
  show "\<forall>e \<in> set (new_events w w'). event_run_id e = run_id h \<and> event_project_id e = project_id h"
    using ok(9) n2 by simp
qed


lemma filter_is_status_no_status:
  assumes "STATUS \<notin> set (map event_type es)"
  shows "filter (is_status s) es = []"
  using assms by (induction es) (auto simp: is_status_def)

lemma dequeue_nonempty:
  assumes "queue w0 \<noteq> []"
  shows "dequeue w0 = (Some (last (queue w0)),
           hset_status (job_id (last (queue w0))) ''running'' (w0\<lparr>queue := butlast (queue w0)\<rparr>))"
  using assms by (simp add: dequeue_def Let_def)

lemma worker_turn_one_session:
  assumes q: "queue w0 \<noteq> []"
    and j: "j = last (queue w0)"
    and m: "job_max_iterations j = Some 1"
    and l: "feature_list w0 (generations_dir w0 @ ''/'' @ job_project_id j) = Parsed (JList fs)"
    and objs: "\<forall>f \<in> set fs. \<exists>kv. f = JObj kv"
    and pend: "p_pending (AgentHarness_get_progress (Parsed (JList fs))) \<noteq> 0"
  shows "\<exists>w'. run_worker_turn (Suc (Suc fuel)) w0 = Some w'
      \<and> extends w0 w'
      \<and> map event_type (new_events w0 w')
          = [STATUS, FEATURE, TOOL_CALL, TOOL_RESULT, TOOL_CALL, TOOL_RESULT, TOOL_CALL, TEST,
             COMMIT, FEATURE, STATUS]
      \<and> map event_step (new_events w0 w') = [1, 2, 3, 4, 5, 6, 7, 8, 9, 10, 11]
      \<and> filter (is_status ''running'') (new_events w0 w') = [hd (new_events w0 w')]
      \<and> filter (is_status ''paused'') (new_events w0 w') = [last (new_events w0 w')]
      \<and> (\<forall>e \<in> set (new_events w0 w'). event_run_id e = job_run_id j)
      \<and> stored_status (job_id j) w' = Some ''completed''"
proof -
  let ?wq = "hset_status (job_id j) ''running'' (w0\<lparr>queue := butlast (queue w0)\<rparr>)"
  let ?hq = "worker_harness j ?wq"
  let ?hrun = "?hq\<lparr>status := RUNNING\<rparr>"
  have dq: "dequeue w0 = (Some j, ?wq)" using dequeue_nonempty [OF q] j by simp
  have dir: "project_dir ?hq = generations_dir w0 @ ''/'' @ job_project_id j"
    by (simp add: worker_harness_def AgentHarness_init_def hset_status_proj)
  have led: "feature_list ?wq (project_dir ?hq) = Parsed (JList fs)"
    using l by (simp add: dir hset_status_proj)
  have mx: "max_iterations ?hrun = Some 1" and st: "step ?hrun = 0" and rid: "run_id ?hrun = job_run_id j"
    using m by (simp_all add: worker_harness_def AgentHarness_init_def)
  have tr0: "trace ?wq = trace w0" by (simp add: hset_status_proj)
  obtain c h1 w1 where it1: "coding_iteration 1 ?hrun ?wq = (c, h1, w1)"
    by (cases "coding_iteration 1 ?hrun ?wq") auto
  have nl: "\<not> limit_reached (max_iterations ?hrun) 1" by (simp add: mx limit_reached_def)
  have led0: "feature_list ?wq (project_dir ?hrun) = Parsed (JList fs)"
    using led by simp
  have np: "\<not> all_passing (AgentHarness_get_progress (feature_list ?wq (project_dir ?hrun)))"
    unfolding led0 using pend by (simp add: all_passing_def)
  have ld: "load_features (feature_list ?wq (project_dir ?hrun)) = Inr (JList fs)"
    unfolding led0 by simp
  from list_ledger_markable [OF objs pend] obtain fs' where
    mk: "mark_passes (JList fs) (p_passing (AgentHarness_get_progress (feature_list ?wq (project_dir ?hrun)))) = Inr fs'"
    unfolding led0 by blast
  note s1 = coding_iteration_session [OF nl np ld mk it1]
  let ?e = "AgentEvent STATUS (run_id h1) (project_id h1) (step h1 + 1) (paused_data (max_iterations h1))"
  have lim2: "limit_reached (max_iterations h1) (1 + 1)"
    using s1(3) mx by (simp add: limit_reached_def)
  have it2: "coding_iteration (1 + 1) h1 w1 = (Break, h1\<lparr>step := step h1 + 1\<rparr>, publish ?e w1)"
    by (rule coding_iteration_paused [OF lim2])
  have loop: "run_coding_loop (Suc (Suc fuel)) 1 ?hrun ?wq
                = Some (Returned (), h1\<lparr>step := step h1 + 1\<rparr>, publish ?e w1)"
    using it1 s1(1) it2 by simp
  have nf: "\<not> is_first_run ?hrun ?wq" unfolding is_first_run_def led0 by simp
  have run: "run (Suc (Suc fuel)) ?hq ?wq
               = Some (Returned (), h1\<lparr>step := step h1 + 1, status := COMPLETED\<rparr>, publish ?e w1)"
    using loop nf by (simp add: run_def run_body_def)
  let ?wfin = "complete (job_id j) ''completed'' (publish ?e w1)"
  have turn: "run_worker_turn (Suc (Suc fuel)) w0 = Some ?wfin"
    using dq run by (simp add: run_worker_turn_def)
  have ex1: "extends ?wq (publish ?e w1)"
    and ne1: "new_events ?wq (publish ?e w1) = new_events ?wq w1 @ [?e]"
    using extends_trans [OF s1(5) extends_publish(1), of ?e] by simp_all
  have same: "new_events w0 ?wfin = new_events ?wq (publish ?e w1)" "extends w0 ?wfin = extends ?wq (publish ?e w1)"
    by (simp_all add: new_events_def new_actions_def extends_def complete_def hset_status_proj)
  have evs: "new_events w0 ?wfin = new_events ?wq w1 @ [?e]" using same ne1 by simp
  obtain e0 rest where split: "new_events ?wq w1 = e0 # rest"
    using s1(6) by (cases "new_events ?wq w1") auto
  have rest_types: "map event_type rest
      = [FEATURE, TOOL_CALL, TOOL_RESULT, TOOL_CALL, TOOL_RESULT, TOOL_CALL, TEST, COMMIT, FEATURE]"
    and e0_type: "event_type e0 = STATUS"
    using s1(6) split by simp_all
  have e0_running: "is_status ''running'' e0" using s1(8) split by simp
  have rest_none: "filter (is_status s) rest = []" for s
    by (rule filter_is_status_no_status) (simp add: rest_types)
  have e0_not_paused: "\<not> is_status ''paused'' e0"
    using e0_running by (auto simp: is_status_def)
  have pausedE: "is_status ''paused'' ?e" "\<not> is_status ''running'' ?e"
    by (simp_all add: paused_data_def)
  have r1: "extends w0 ?wfin" using same ex1 by simp
  have r2: "map event_type (new_events w0 ?wfin)
          = [STATUS, FEATURE, TOOL_CALL, TOOL_RESULT, TOOL_CALL, TOOL_RESULT, TOOL_CALL, TEST,
             COMMIT, FEATURE, STATUS]"
    using evs s1(6) by simp
  have r3: "map event_step (new_events w0 ?wfin) = [1, 2, 3, 4, 5, 6, 7, 8, 9, 10, 11]"
    using evs s1(7) s1(2) st by simp
  have r4: "filter (is_status ''running'') (new_events w0 ?wfin) = [hd (new_events w0 ?wfin)]"
    using evs split e0_running rest_none pausedE by simp
  have r5: "filter (is_status ''paused'') (new_events w0 ?wfin) = [last (new_events w0 ?wfin)]"
    using evs split e0_not_paused rest_none pausedE by simp
  have r6: "\<forall>e \<in> set (new_events w0 ?wfin). event_run_id e = job_run_id j"
    using evs s1(9) s1(3) rid by auto
  have r7: "stored_status (job_id j) ?wfin = Some ''completed''"
    by (simp add: complete_def hset_status_proj)
  show ?thesis
    by (rule exI [of _ ?wfin], intro conjI) (rule turn r1 r2 r3 r4 r5 r6 r7)+
qed


lemma example_world_simps:
  "trace example_world = []"
  "history example_world = Map.empty"
  "job_hashes example_world = Map.empty"
  "queue example_world = []"
  "feature_list example_world = (\<lambda>d. Missing)"
  "uuid_calls example_world = 0"
  "generations_dir example_world = ''generations''"
  "uuid_source example_world 0 = ''00000000000000000000000000000000''"
  "uuid_source example_world (Suc 0) = ''00000000000000000000000000000001''"
  by (simp_all add: example_world_def str_nat.simps)

lemma example_queued_simps:
  "queue (example_queued m f) =
     [\<lparr>job_run_id = ''00000000-0000-0000-0000-000000000000'', job_project_id = ''p'',
       job_agent_type = ''coding'', job_target_feature_id = None, job_model = ''m'',
       job_max_iterations = m, job_app_spec_content = None,
       job_id = ''00000000-0000-0000-0000-000000000001'', job_status = ''queued''\<rparr>]"
  "generations_dir (example_queued m f) = ''generations''"
  "feature_list (example_queued m f) ''generations/p'' = f"
  by (simp_all add: example_queued_def example_request_def start_agent_run_def enqueue_def
      uuid4_def publish_proj Let_def example_world_simps uuid_str_def)

lemma example_ledger_facts:
  "\<forall>f \<in> set [example_feature 1 False, example_feature 2 False]. \<exists>kv. f = JObj kv"
  "AgentHarness_get_progress (Parsed (JList [example_feature 1 False, example_feature 2 False]))
     = \<lparr>p_total = 2, p_passing = 0, p_pending = 2\<rparr>"
  by (simp_all add: example_feature_def AgentHarness_get_progress_def dict_get_def)

text \<open>
  C1, as amended: a worker that takes a job with \<open>max_iterations = 1\<close> whose ledger is a
  list of feature objects with at least one of them not passing publishes exactly eleven
  events for the run, with steps 1 to 11: one \<^verbatim>\<open>status\<close> event with
  \<^verbatim>\<open>status=running\<close>, the nine events of one session (feature, tool calls and
  results, test, commit, feature), and one \<^verbatim>\<open>status\<close> event with
  \<^verbatim>\<open>status=paused\<close>; the run then returns normally and the worker stores the job
  status \<^verbatim>\<open>completed\<close>.
\<close>

theorem one_session_then_paused_is_completed:
  assumes "queue w0 \<noteq> []"
    and "j = last (queue w0)"
    and "job_max_iterations j = Some 1"
    and "feature_list w0 (generations_dir w0 @ ''/'' @ job_project_id j) = Parsed (JList fs)"
    and "\<forall>f \<in> set fs. \<exists>kv. f = JObj kv"
    and "p_pending (AgentHarness_get_progress (Parsed (JList fs))) \<noteq> 0"
  shows "\<exists>w'. run_worker_turn (Suc (Suc fuel)) w0 = Some w'
      \<and> extends w0 w'
      \<and> map event_type (new_events w0 w')
          = [STATUS, FEATURE, TOOL_CALL, TOOL_RESULT, TOOL_CALL, TOOL_RESULT, TOOL_CALL, TEST,
             COMMIT, FEATURE, STATUS]
      \<and> map event_step (new_events w0 w') = [1, 2, 3, 4, 5, 6, 7, 8, 9, 10, 11]
      \<and> filter (is_status ''running'') (new_events w0 w') = [hd (new_events w0 w')]
      \<and> filter (is_status ''paused'') (new_events w0 w') = [last (new_events w0 w')]
      \<and> (\<forall>e \<in> set (new_events w0 w'). event_run_id e = job_run_id j)
      \<and> stored_status (job_id j) w' = Some ''completed''"
  using assms by (rule worker_turn_one_session)

theorem one_session_then_paused_is_completed_witness:
  "\<exists>w'. run_worker_turn 2 (example_queued (Some 1)
            (Parsed (JList [example_feature 1 False, example_feature 2 False]))) = Some w'
      \<and> map event_step (new_events (example_queued (Some 1)
            (Parsed (JList [example_feature 1 False, example_feature 2 False]))) w')
           = [1, 2, 3, 4, 5, 6, 7, 8, 9, 10, 11]
      \<and> stored_status ''00000000-0000-0000-0000-000000000001'' w' = Some ''completed''"
proof -
  let ?fs = "[example_feature 1 False, example_feature 2 False]"
  let ?w = "example_queued (Some 1) (Parsed (JList ?fs))"
  let ?j = "last (queue ?w)"
  have 1: "queue ?w \<noteq> []" by (simp add: example_queued_simps)
  have 3: "job_max_iterations ?j = Some 1" by (simp add: example_queued_simps)
  have 4: "feature_list ?w (generations_dir ?w @ ''/'' @ job_project_id ?j) = Parsed (JList ?fs)"
    by (simp add: example_queued_simps)
  have 6: "p_pending (AgentHarness_get_progress (Parsed (JList ?fs))) \<noteq> 0"
    by (simp add: example_ledger_facts)
  have id: "job_id ?j = ''00000000-0000-0000-0000-000000000001''"
    by (simp add: example_queued_simps)
  from one_session_then_paused_is_completed [OF 1 refl 3 4 example_ledger_facts(1) 6, of 0]
  show ?thesis unfolding id by (auto simp: numeral_2_eq_2)
qed

text \<open>
  C1 as stated fails: for the example job with \<open>max_iterations = 1\<close> and two failing
  features, the stored status after the worker's turn is \<^verbatim>\<open>completed\<close>, not
  \<^verbatim>\<open>running\<close>.
\<close>

theorem paused_job_is_stored_as_completed:
  "map_option (stored_status ''00000000-0000-0000-0000-000000000001'')
     (run_worker_turn 2 (example_queued (Some 1)
        (Parsed (JList [example_feature 1 False, example_feature 2 False]))))
   = Some (Some ''completed'')
   \<and> map_option (stored_status ''00000000-0000-0000-0000-000000000001'')
     (run_worker_turn 2 (example_queued (Some 1)
        (Parsed (JList [example_feature 1 False, example_feature 2 False]))))
   \<noteq> Some (Some ''running'')"
proof -
  let ?fs = "[example_feature 1 False, example_feature 2 False]"
  let ?w = "example_queued (Some 1) (Parsed (JList ?fs))"
  let ?j = "last (queue ?w)"
  have 1: "queue ?w \<noteq> []" by (simp add: example_queued_simps)
  have 3: "job_max_iterations ?j = Some 1" by (simp add: example_queued_simps)
  have 4: "feature_list ?w (generations_dir ?w @ ''/'' @ job_project_id ?j) = Parsed (JList ?fs)"
    by (simp add: example_queued_simps)
  have 6: "p_pending (AgentHarness_get_progress (Parsed (JList ?fs))) \<noteq> 0"
    by (simp add: example_ledger_facts)
  have id: "job_id ?j = ''00000000-0000-0000-0000-000000000001''"
    by (simp add: example_queued_simps)
  from worker_turn_one_session [OF 1 refl 3 4 example_ledger_facts(1) 6, of 0]
  show ?thesis unfolding id by (auto simp: numeral_2_eq_2)
qed

section \<open>The two progress readers compared\<close>

text \<open>
  C10 as stated fails: on the ledger object \<^verbatim>\<open>{"total": 5, "passing": 5}\<close> the
  reader of AgentHarness returns \<open>{5, 5, 0}\<close> and the reader of RealAgentHarness, which
  finds no \<^verbatim>\<open>features\<close> entry, returns \<open>{0, 0, 0}\<close>.
\<close>

theorem progress_readers_differ_on_object:
  "AgentHarness_get_progress (Parsed (JObj [(''total'', JInt 5), (''passing'', JInt 5)]))
     = \<lparr>p_total = 5, p_passing = 5, p_pending = 0\<rparr>
   \<and> RealAgentHarness_get_progress (Parsed (JObj [(''total'', JInt 5), (''passing'', JInt 5)]))
     = \<lparr>p_total = 0, p_passing = 0, p_pending = 0\<rparr>"
  by (simp add: AgentHarness_get_progress_def RealAgentHarness_get_progress_def
      RealAgentHarness_progress_of_def dict_get_def zero_progress_def)

text \<open>
  C10, as amended: for every state of the ledger file that is not a JSON object (missing,
  unreadable, unparsable, a list, or any other JSON value), and for every JSON object
  that has none of the entries \<^verbatim>\<open>total\<close>, \<^verbatim>\<open>passing\<close> and \<^verbatim>\<open>features\<close>, the
  two progress readers return the same snapshot.
\<close>

theorem progress_readers_agree_off_objects:
  assumes "\<forall>kv. f = Parsed (JObj kv) \<longrightarrow>
             map_of kv ''total'' = None \<and> map_of kv ''passing'' = None \<and> map_of kv ''features'' = None"
  shows "AgentHarness_get_progress f = RealAgentHarness_get_progress f"
proof (cases f)
  case (Parsed d)
  show ?thesis
  proof (cases d)
    case (JObj kv)
    with Parsed assms have "map_of kv ''total'' = None" "map_of kv ''passing'' = None"
      "map_of kv ''features'' = None" by auto
    with Parsed JObj show ?thesis
      by (simp add: AgentHarness_get_progress_def RealAgentHarness_get_progress_def
          RealAgentHarness_progress_of_def dict_get_def zero_progress_def)
  qed (simp_all add: Parsed AgentHarness_get_progress_def RealAgentHarness_get_progress_def
          RealAgentHarness_progress_of_def split: sum.splits)
qed (simp_all add: AgentHarness_get_progress_def RealAgentHarness_get_progress_def)

theorem progress_readers_agree_off_objects_witness:
  "AgentHarness_get_progress (Parsed (JList [JObj [(''passes'', JBool True)], JObj []]))
     = RealAgentHarness_get_progress (Parsed (JList [JObj [(''passes'', JBool True)], JObj []]))
   \<and> AgentHarness_get_progress (Parsed (JList [JObj [(''passes'', JBool True)], JObj []]))
     = \<lparr>p_total = 2, p_passing = 1, p_pending = 1\<rparr>"
  using progress_readers_agree_off_objects [of "Parsed (JList [JObj [(''passes'', JBool True)], JObj []])"]
  by (simp add: AgentHarness_get_progress_def dict_get_def)

section \<open>Replay\<close>

lemma lrange_all_publish:
  "lrange_all (publish e w) rid = (if event_run_id e = rid then e # lrange_all w rid else lrange_all w rid)"
  by (simp add: publish_def lrange_all_def)

lemma lrange_all_fold_publish:
  "lrange_all (fold publish es w) rid = rev (filter (\<lambda>e. event_run_id e = rid) es) @ lrange_all w rid"
  by (induction es arbitrary: w) (simp_all add: lrange_all_publish)

text \<open>
  C8: the replay route returns the run's retained events oldest first: after any sequence
  of events has been published, it returns what it returned before followed by the
  events of that run in the order they were published. For a run id whose history key
  has expired, or that has no history key, it returns the empty list (it has no error
  outcome), and its result does not depend on the job table or the queue, so it is the
  same whether or not the run is still active.
\<close>

theorem replay_oldest_first:
  "get_run_events rid (fold publish es w)
     = get_run_events rid w @ map to_dict (filter (\<lambda>e. event_run_id e = rid) es)
   \<and> get_run_events rid (ttl_expired rid w) = []
   \<and> (history w rid = None \<longrightarrow> get_run_events rid w = [])
   \<and> get_run_events rid (w\<lparr>job_hashes := jh, queue := q\<rparr>) = get_run_events rid w"
  by (simp add: get_run_events_def lrange_all_fold_publish) (simp add: lrange_all_def ttl_expired_def)

theorem replay_oldest_first_witness:
  "history example_world ''r'' = None
   \<and> get_run_events ''r'' example_world = []
   \<and> get_run_events ''r'' (fold publish [AgentEvent STATUS ''r'' ''p'' 1 [], AgentEvent COMPLETE ''r'' ''p'' 2 []] example_world)
       = [to_dict (AgentEvent STATUS ''r'' ''p'' 1 []), to_dict (AgentEvent COMPLETE ''r'' ''p'' 2 [])]"
proof -
  have h: "history example_world ''r'' = None" by (simp add: example_world_simps)
  with replay_oldest_first [of "''r''" "[]" example_world]
  have e: "get_run_events ''r'' example_world = []" by simp
  from replay_oldest_first [of "''r''" "[AgentEvent STATUS ''r'' ''p'' 1 [], AgentEvent COMPLETE ''r'' ''p'' 2 []]" example_world] e
  have "get_run_events ''r'' (fold publish [AgentEvent STATUS ''r'' ''p'' 1 [], AgentEvent COMPLETE ''r'' ''p'' 2 []] example_world)
       = [to_dict (AgentEvent STATUS ''r'' ''p'' 1 []), to_dict (AgentEvent COMPLETE ''r'' ''p'' 2 [])]"
    by simp
  with h e show ?thesis by simp
qed

section \<open>Enqueue and query\<close>

text \<open>
  C2 fails on the code. The start route answers with the run id and the status
  \<^verbatim>\<open>queued\<close>, but the job is stored under the separate id that
  \<^verbatim>\<open>JobQueue.enqueue\<close> draws. Whenever the two ids differ and no job hash existed
  under the run id, the query route called with the returned run id raises the 404
  "Run not found", although the job is stored (under its own id) with status
  \<^verbatim>\<open>queued\<close>.
\<close>

theorem returned_run_id_is_not_a_job_id:
  assumes "uuid_str (uuid_source w (Suc (uuid_calls w))) \<noteq> uuid_str (uuid_source w (uuid_calls w))"
    and "job_hashes w (uuid_str (uuid_source w (uuid_calls w))) = None"
  shows "resp_run_id (fst (start_agent_run request w)) = uuid_str (uuid_source w (uuid_calls w))
       \<and> resp_status (fst (start_agent_run request w)) = QUEUED
       \<and> stored_status (uuid_str (uuid_source w (Suc (uuid_calls w)))) (snd (start_agent_run request w))
           = Some ''queued''
       \<and> get_agent_run (resp_run_id (fst (start_agent_run request w))) (snd (start_agent_run request w))
           = Inl (HTTPException 404 ''Run not found'')"
  using assms
  by (simp add: start_agent_run_def enqueue_def uuid4_def publish_def get_agent_run_def get_job_def
      stored_status_def Let_def)

theorem returned_run_id_is_not_a_job_id_witness:
  "resp_run_id (fst (start_agent_run (example_request None) example_world))
     = ''00000000-0000-0000-0000-000000000000''
   \<and> stored_status ''00000000-0000-0000-0000-000000000001''
        (snd (start_agent_run (example_request None) example_world)) = Some ''queued''
   \<and> get_agent_run ''00000000-0000-0000-0000-000000000000''
        (snd (start_agent_run (example_request None) example_world))
       = Inl (HTTPException 404 ''Run not found'')"
proof -
  have u0: "uuid_str (uuid_source example_world (uuid_calls example_world))
              = ''00000000-0000-0000-0000-000000000000''"
    and u1: "uuid_str (uuid_source example_world (Suc (uuid_calls example_world)))
              = ''00000000-0000-0000-0000-000000000001''"
    by (simp_all add: example_world_simps uuid_str_def)
  have a: "uuid_str (uuid_source example_world (Suc (uuid_calls example_world)))
       \<noteq> uuid_str (uuid_source example_world (uuid_calls example_world))"
    unfolding u0 u1 by simp
  have b: "job_hashes example_world (uuid_str (uuid_source example_world (uuid_calls example_world))) = None"
    by (simp add: example_world_simps)
  note r = returned_run_id_is_not_a_job_id [OF a b, of "example_request None", unfolded u0 u1]
  from r have rid: "resp_run_id (fst (start_agent_run (example_request None) example_world))
     = ''00000000-0000-0000-0000-000000000000''" by (rule conjunct1)
  from r show ?thesis unfolding rid by blast
qed

section \<open>Exceptions that escape the run\<close>





section \<open>What a session may publish\<close>

lemma emits_only_refl [simp]: "emits_only P w w"
  by (simp add: emits_only_def)

lemma emits_only_trans:
  assumes "emits_only P w w1" "emits_only P w1 w2"
  shows "emits_only P w w2"
  using assms extends_trans [of w w1 w2] by (simp add: emits_only_def)

lemma emits_only_publish: "P e \<Longrightarrow> emits_only P w (publish e w)"
  by (simp add: emits_only_def)

lemma emits_only_sleep [simp]: "emits_only P w (sleep ms w)"
  by (simp add: emits_only_def)

lemma emits_only_same_trace: "trace w' = trace w \<Longrightarrow> emits_only P w w'"
  by (simp add: emits_only_def extends_def new_events_def new_actions_def)

lemma emits_only_mono:
  assumes "emits_only P w w'" "\<And>e. P e \<Longrightarrow> Q e"
  shows "emits_only Q w w'"
  using assms by (auto simp: emits_only_def list_all_iff)

lemma emits_only_emit:
  assumes "emit t d h w = (h', w')" "P (AgentEvent t (run_id h) (project_id h) (step h + 1) d)"
  shows "emits_only P w w'" "max_iterations h' = max_iterations h" "project_dir h' = project_dir h"
    "feature_list w' = feature_list w"
  using assms by (auto simp: emit_eq emits_only_publish publish_proj)

lemma inner_event_simps [simp]:
  "t \<noteq> COMPLETE \<Longrightarrow> t \<noteq> STATUS \<Longrightarrow> inner_event (AgentEvent t r p k d)"
  "s \<noteq> ''paused'' \<Longrightarrow> inner_event (AgentEvent STATUS r p k ((''status'', JStr s) # d))"
  "\<not> inner_event (AgentEvent COMPLETE r p k d)"
  "\<not> inner_event (AgentEvent STATUS r p k (paused_data m))"
  by (auto simp: inner_event_def is_status_def paused_data_def)

lemma emit_steps_inner:
  assumes "emit_steps ms steps h w = (h', w')"
  shows "emits_only inner_event w w' \<and> max_iterations h' = max_iterations h
         \<and> project_dir h' = project_dir h \<and> feature_list w' = feature_list w"
  using assms
proof (induction ms steps h w rule: emit_steps.induct)
  case (1 ms h w)
  then show ?case by simp
next
  case (2 ms etype d steps h w)
  let ?t = "if etype = ''tool_call'' then TOOL_CALL else TOOL_RESULT"
  let ?h2 = "h\<lparr>step := step h + 1\<rparr>"
  let ?w2 = "publish (AgentEvent ?t (run_id h) (project_id h) (step h + 1) d) (sleep ms w)"
  have e: "(if etype = ''tool_call'' then emit TOOL_CALL d h (sleep ms w)
            else emit TOOL_RESULT d h (sleep ms w)) = (?h2, ?w2)"
    by (simp add: emit_eq)
  have rest: "emit_steps ms steps ?h2 ?w2 = (h', w')"
    using "2.prems" e by (simp add: Let_def)
  from "2.IH" [OF refl refl e [symmetric] rest]
  have ih: "emits_only inner_event ?w2 w' \<and> max_iterations h' = max_iterations ?h2
         \<and> project_dir h' = project_dir ?h2 \<and> feature_list w' = feature_list ?w2" .
  have first: "emits_only inner_event w ?w2"
    by (rule emits_only_trans [OF emits_only_sleep]) (rule emits_only_publish, simp)
  from ih first show ?case
    by (auto intro: emits_only_trans simp: publish_proj sleep_proj)
qed


lemma run_coding_session_inner:
  assumes "run_coding_session session h w = (r, h', w')"
  shows "emits_only inner_event w w' \<and> max_iterations h' = max_iterations h
         \<and> project_dir h' = project_dir h"
proof -
  let ?nf = "p_passing (AgentHarness_get_progress (feature_list w (project_dir h))) + 1"
  let ?h1 = "h\<lparr>step := step h + 1\<rparr>"
  let ?w1 = "publish (AgentEvent FEATURE (run_id h) (project_id h) (step h + 1)
               [(''action'', JStr ''started''), (''featureId'', JInt ?nf),
                (''name'', JStr (''Feature '' @ str_int ?nf))]) w"
  obtain h2 w2 where es: "emit_steps 300 (coding_steps ?nf) ?h1 ?w1 = (h2, w2)"
    by (cases "emit_steps 300 (coding_steps ?nf) ?h1 ?w1") auto
  note i2 = emit_steps_inner [OF es]
  let ?h3 = "h2\<lparr>step := step h2 + 1\<rparr>"
  let ?w3 = "publish (AgentEvent TEST (run_id h2) (project_id h2) (step h2 + 1)
               [(''featureId'', JInt ?nf), (''status'', JStr ''passed''), (''duration'', JInt 1234)]) w2"
  have e1: "emits_only inner_event w ?w1" by (rule emits_only_publish) simp
  have e3: "emits_only inner_event w ?w3"
    by (rule emits_only_trans [OF e1], rule emits_only_trans [OF conjunct1 [OF i2]],
        rule emits_only_publish) simp
  have cfg3: "max_iterations ?h3 = max_iterations h" "project_dir ?h3 = project_dir h"
    using i2 by simp_all
  show ?thesis
  proof (cases "load_features (feature_list ?w3 (project_dir ?h3))")
    case (Inl e)
    with assms es have "h' = ?h3" "w' = ?w3"
      by (simp_all add: run_coding_session_def emit_eq Let_def)
    with e3 cfg3 show ?thesis by simp
  next
    case (Inr fs)
    show ?thesis
    proof (cases "mark_passes fs (?nf - 1)")
      case (Inl e)
      with Inr assms es have "h' = ?h3" "w' = ?w3"
        by (simp_all add: run_coding_session_def emit_eq Let_def)
      with e3 cfg3 show ?thesis by simp
    next
      case (Inr fs')
      from Inr \<open>load_features (feature_list ?w3 (project_dir ?h3)) = Inr fs\<close> assms es
      have res: "emits_only inner_event ?w3 w'" "max_iterations h' = max_iterations h2"
        "project_dir h' = project_dir h2"
        by (auto simp: run_coding_session_def emit_eq Let_def uuid4_def emits_only_def extends_def
            new_events_def new_actions_def publish_proj inner_event_def is_status_def)
      from emits_only_trans [OF e3 res(1)] res(2,3) i2
      show ?thesis by simp
    qed
  qed
qed

lemma simulate_initializer_inner:
  assumes "simulate_initializer h w = (h', w')"
  shows "emits_only inner_event w w' \<and> max_iterations h' = max_iterations h
         \<and> project_dir h' = project_dir h"
proof -
  obtain h1 w1 where es: "emit_steps 500 initializer_steps h w = (h1, w1)"
    by (cases "emit_steps 500 initializer_steps h w") auto
  note i1 = emit_steps_inner [OF es]
  let ?w2 = "w1\<lparr>feature_list := (feature_list w1)(project_dir h1 := Parsed (JList mock_features))\<rparr>"
  have e2: "emits_only inner_event w1 ?w2" by (rule emits_only_same_trace) simp
  from assms es obtain d where res: "emit STATUS ((''status'', JStr ''initialized'') # d) h1 ?w2 = (h', w')"
    by (simp add: simulate_initializer_def Let_def)
  note i3 = emits_only_emit [OF res, of inner_event]
  have "emits_only inner_event ?w2 w'" by (rule i3(1)) simp
  from emits_only_trans [OF conjunct1 [OF i1] emits_only_trans [OF e2 this]] i1 i3(2,3)
  show ?thesis by simp
qed


lemma assistant_blocks_inner:
  assumes "assistant_blocks bs t h w = (t', h', w')"
  shows "emits_only inner_event w w' \<and> max_iterations h' = max_iterations h
         \<and> project_dir h' = project_dir h \<and> feature_list w' = feature_list w"
  using assms
proof (induction bs arbitrary: t h w)
  case Nil
  then show ?case by simp
next
  case (Cons b bs)
  show ?case
  proof (cases b)
    case (TextBlock x)
    let ?w1 = "publish (AgentEvent MESSAGE (run_id h) (project_id h) (step h + 1) [(''text'', JStr x)]) w"
    from Cons.prems TextBlock
    have "assistant_blocks bs (t @ x) (h\<lparr>step := step h + 1\<rparr>) ?w1 = (t', h', w')"
      by (simp add: emit_eq)
    note ih = Cons.IH [OF this]
    have "emits_only inner_event w ?w1" by (rule emits_only_publish) simp
    from emits_only_trans [OF this conjunct1 [OF ih]] ih show ?thesis
      by (simp add: publish_proj)
  next
    case (ToolUseBlock name inp)
    let ?d = "[(''name'', JStr name),
               (''input'', JStr (case inp of None \<Rightarrow> [] | Some i \<Rightarrow> take 200 i))]"
    let ?w1 = "publish (AgentEvent TOOL_CALL (run_id h) (project_id h) (step h + 1) ?d) w"
    from Cons.prems ToolUseBlock
    have "assistant_blocks bs t (h\<lparr>step := step h + 1\<rparr>) ?w1 = (t', h', w')"
      by (simp add: emit_eq Let_def)
    note ih = Cons.IH [OF this]
    have "emits_only inner_event w ?w1" by (rule emits_only_publish) simp
    from emits_only_trans [OF this conjunct1 [OF ih]] ih show ?thesis
      by (simp add: publish_proj)
  next
    case (ToolResultBlock c e)
    with Cons show ?thesis by simp
  next
    case OtherBlock
    with Cons show ?thesis by simp
  qed
qed

lemma user_blocks_inner:
  assumes "user_blocks bs h w = (h', w')"
  shows "emits_only inner_event w w' \<and> max_iterations h' = max_iterations h
         \<and> project_dir h' = project_dir h \<and> feature_list w' = feature_list w"
  using assms
proof (induction bs arbitrary: h w)
  case Nil
  then show ?case by simp
next
  case (Cons b bs)
  show ?case
  proof (cases b)
    case (ToolResultBlock c e)
    obtain t d where
      step1: "(if contains ''blocked'' (lower (take 500 c)) then
                 emit TOOL_RESULT [(''blocked'', JBool True), (''output'', JStr (take 500 c))] h w
               else if e then emit ERROR [(''output'', JStr (take 500 c))] h w
               else emit TOOL_RESULT [(''output'', JStr ''Done'')] h w)
              = (h\<lparr>step := step h + 1\<rparr>,
                 publish (AgentEvent t (run_id h) (project_id h) (step h + 1) d) w)"
      and t: "t \<noteq> COMPLETE" "t \<noteq> STATUS"
      by (cases "contains ''blocked'' (lower (take 500 c))"; cases e) (auto simp: emit_eq)
    let ?w1 = "publish (AgentEvent t (run_id h) (project_id h) (step h + 1) d) w"
    from Cons.prems ToolResultBlock step1
    have "user_blocks bs (h\<lparr>step := step h + 1\<rparr>) ?w1 = (h', w')"
      by (simp add: Let_def)
    note ih = Cons.IH [OF this]
    have "emits_only inner_event w ?w1" by (rule emits_only_publish) (simp add: t)
    from emits_only_trans [OF this conjunct1 [OF ih]] ih show ?thesis
      by (simp add: publish_proj)
  next
    case (TextBlock x)
    with Cons show ?thesis by simp
  next
    case (ToolUseBlock n i)
    with Cons show ?thesis by simp
  next
    case OtherBlock
    with Cons show ?thesis by simp
  qed
qed

lemma receive_response_inner:
  assumes "receive_response ms t h w = (t', h', w')"
  shows "emits_only inner_event w w' \<and> max_iterations h' = max_iterations h
         \<and> project_dir h' = project_dir h \<and> feature_list w' = feature_list w"
  using assms
proof (induction ms arbitrary: t h w)
  case Nil
  then show ?case by simp
next
  case (Cons m ms)
  show ?case
  proof (cases m)
    case (AssistantMessage bs)
    obtain t1 h1 w1 where a: "assistant_blocks bs t h w = (t1, h1, w1)"
      by (cases "assistant_blocks bs t h w") auto
    with Cons.prems AssistantMessage have "receive_response ms t1 h1 w1 = (t', h', w')" by simp
    note ih = Cons.IH [OF this] and st = assistant_blocks_inner [OF a]
    from emits_only_trans [OF conjunct1 [OF st] conjunct1 [OF ih]] ih st show ?thesis by simp
  next
    case (UserMessage bs)
    obtain h1 w1 where a: "user_blocks bs h w = (h1, w1)"
      by (cases "user_blocks bs h w") auto
    with Cons.prems UserMessage have "receive_response ms t h1 w1 = (t', h', w')" by simp
    note ih = Cons.IH [OF this] and st = user_blocks_inner [OF a]
    from emits_only_trans [OF conjunct1 [OF st] conjunct1 [OF ih]] ih st show ?thesis by simp
  next
    case OtherMessage
    with Cons show ?thesis by simp
  qed
qed

lemma simulate_session_inner:
  assumes "simulate_session p n h w = (r, h', w')"
  shows "emits_only inner_event w w' \<and> max_iterations h' = max_iterations h
         \<and> project_dir h' = project_dir h"
proof (cases "mentions_first_session p")
  case True
  let ?m = "AgentHarness_init (run_id h) (project_id h) (project_dir h) (model h) (Some 1)"
  obtain m1 w1 where si: "simulate_initializer ?m w = (m1, w1)"
    by (cases "simulate_initializer ?m w") auto
  with assms True have "w' = w1" "max_iterations h' = max_iterations h" "project_dir h' = project_dir h"
    by (auto simp: simulate_session_def Let_def)
  with simulate_initializer_inner [OF si] show ?thesis by simp
next
  case False
  let ?m = "AgentHarness_init (run_id h) (project_id h) (project_dir h) (model h) (Some 1)"
  obtain r1 m1 w1 where rs: "run_coding_session n ?m w = (r1, m1, w1)"
    by (cases "run_coding_session n ?m w") auto
  with assms False have "w' = w1" "max_iterations h' = max_iterations h" "project_dir h' = project_dir h"
    by (cases r1; auto simp: simulate_session_def Let_def)+
  with run_coding_session_inner [OF rs] show ?thesis by simp
qed

lemma run_agent_session_inner:
  assumes "run_agent_session ev p n h w = (r, h', w')"
  shows "emits_only inner_event w w' \<and> max_iterations h' = max_iterations h
         \<and> project_dir h' = project_dir h"
proof (cases "sdk_available ev")
  case False
  let ?h1 = "h\<lparr>step := step h + 1\<rparr>"
  let ?w1 = "publish (AgentEvent STATUS (run_id h) (project_id h) (step h + 1)
               [(''status'', JStr ''simulating''),
                (''message'', JStr ''Claude SDK not available, using simulation'')]) w"
  from assms False have "simulate_session p n ?h1 ?w1 = (r, h', w')"
    by (simp add: run_agent_session_def emit_eq)
  note ih = simulate_session_inner [OF this]
  have "emits_only inner_event w ?w1" by (rule emits_only_publish) simp
  from emits_only_trans [OF this conjunct1 [OF ih]] ih show ?thesis by simp
next
  case True
  show ?thesis
  proof (cases "api_key ev = None \<or> api_key ev = Some []")
    case True
    with assms \<open>sdk_available ev\<close> show ?thesis by (auto simp: run_agent_session_def)
  next
    case False
    let ?h1 = "h\<lparr>step := step h + 1\<rparr>"
    let ?w1 = "publish (AgentEvent STATUS (run_id h) (project_id h) (step h + 1)
               [(''status'', JStr ''running''), (''session'', JInt n),
                (''message'', JStr ''Sending prompt to Claude...'')]) w"
    let ?r = "engine ev p n (feature_list ?w1 (project_dir ?h1))"
    obtain t h2 w2 where rr: "receive_response (stream ?r) [] ?h1 ?w1 = (t, h2, w2)"
      by (cases "receive_response (stream ?r) [] ?h1 ?w1") auto
    note i2 = receive_response_inner [OF rr]
    let ?w3 = "w2\<lparr>feature_list := (feature_list w2)(project_dir h2 := ledger_after ?r)\<rparr>"
    have e1: "emits_only inner_event w ?w1" by (rule emits_only_publish) simp
    have e3: "emits_only inner_event w ?w3"
      by (rule emits_only_trans [OF e1], rule emits_only_trans [OF conjunct1 [OF i2]],
          rule emits_only_same_trace) simp
    show ?thesis
    proof (cases "failure ?r")
      case None
      with assms \<open>sdk_available ev\<close> False rr have "w' = ?w3" "h' = h2"
        by (auto simp: run_agent_session_def emit_eq Let_def)
      with e3 i2 show ?thesis by simp
    next
      case (Some e)
      let ?w4 = "publish (AgentEvent ERROR (run_id h2) (project_id h2) (step h2 + 1)
                   [(''message'', JStr (msg e)), (''type'', JStr (cls e))]) ?w3"
      from Some assms \<open>sdk_available ev\<close> False rr have "w' = ?w4" "h' = h2\<lparr>step := step h2 + 1\<rparr>"
        by (auto simp: run_agent_session_def emit_eq Let_def)
      moreover have "emits_only inner_event w ?w4"
        by (rule emits_only_trans [OF e3], rule emits_only_publish) simp
      ultimately show ?thesis using i2 by simp
    qed
  qed
qed


section \<open>One pass through a run loop\<close>

lemma emits_only_no_complete:
  assumes "emits_only inner_event w w'"
  shows "\<not> (\<exists>e \<in> set (new_events w w'). event_type e = COMPLETE)"
    and "\<forall>e \<in> set (new_events w w'). \<not> is_status ''paused'' e"
  using assms by (auto simp: emits_only_def list_all_iff inner_event_def)

lemma coding_iteration_cases:
  assumes "coding_iteration session h w = (c, h', w')"
  shows "max_iterations h' = max_iterations h \<and> project_dir h' = project_dir h \<and> extends w w'"
    and "limit_reached (max_iterations h) session \<Longrightarrow>
           c = Break \<and> new_events w w' =
             [AgentEvent STATUS (run_id h) (project_id h) (step h + 1) (paused_data (max_iterations h))]"
    and "\<not> limit_reached (max_iterations h) session \<Longrightarrow>
         all_passing (AgentHarness_get_progress (feature_list w (project_dir h))) \<Longrightarrow>
           c = Break \<and> feature_list w' = feature_list w \<and> new_events w w' =
             [AgentEvent COMPLETE (run_id h) (project_id h) (step h + 1)
                (complete_data h (AgentHarness_get_progress (feature_list w (project_dir h))))]"
    and "\<not> limit_reached (max_iterations h) session \<Longrightarrow>
         \<not> all_passing (AgentHarness_get_progress (feature_list w (project_dir h))) \<Longrightarrow>
           c \<noteq> Break \<and> emits_only inner_event w w'"
proof -
  let ?P = "AgentHarness_get_progress (feature_list w (project_dir h))"
  let ?h1 = "h\<lparr>step := step h + 1\<rparr>"
  let ?w1 = "publish (AgentEvent STATUS (run_id h) (project_id h) (step h + 1)
               [(''status'', JStr ''running''), (''session'', JInt session),
                (''progress'', progress_json ?P)]) w"
  obtain r h2 w2 where rs: "run_coding_session session ?h1 ?w1 = (r, h2, w2)"
    by (cases "run_coding_session session ?h1 ?w1") auto
  note i = run_coding_session_inner [OF rs]
  have e1: "emits_only inner_event w ?w1" by (rule emits_only_publish) simp
  have e2: "emits_only inner_event w w2" by (rule emits_only_trans [OF e1 conjunct1 [OF i]])
  have e3: "emits_only inner_event w (sleep 3000 w2)"
    by (rule emits_only_trans [OF e2 emits_only_sleep])
  have run: "\<not> limit_reached (max_iterations h) session \<Longrightarrow> \<not> all_passing ?P \<Longrightarrow>
          c \<noteq> Break \<and> emits_only inner_event w w' \<and> max_iterations h' = max_iterations h
          \<and> project_dir h' = project_dir h"
    using assms rs e2 e3 i by (cases r) (auto simp: coding_iteration_def emit_eq Let_def)
  show "limit_reached (max_iterations h) session \<Longrightarrow>
           c = Break \<and> new_events w w' =
             [AgentEvent STATUS (run_id h) (project_id h) (step h + 1) (paused_data (max_iterations h))]"
    using assms by (auto simp: coding_iteration_def emit_eq)
  show "\<not> limit_reached (max_iterations h) session \<Longrightarrow> all_passing ?P \<Longrightarrow>
           c = Break \<and> feature_list w' = feature_list w \<and> new_events w w' =
             [AgentEvent COMPLETE (run_id h) (project_id h) (step h + 1) (complete_data h ?P)]"
    using assms by (auto simp: coding_iteration_def emit_eq Let_def publish_proj)
  show "\<not> limit_reached (max_iterations h) session \<Longrightarrow> \<not> all_passing ?P \<Longrightarrow>
           c \<noteq> Break \<and> emits_only inner_event w w'"
    using run by simp
  show "max_iterations h' = max_iterations h \<and> project_dir h' = project_dir h \<and> extends w w'"
  proof (cases "limit_reached (max_iterations h) session")
    case True
    with assms show ?thesis by (auto simp: coding_iteration_def emit_eq)
  next
    case False
    show ?thesis
    proof (cases "all_passing ?P")
      case True
      with False assms show ?thesis by (auto simp: coding_iteration_def emit_eq Let_def)
    next
      case np: False
      from run [OF False np] show ?thesis by (simp add: emits_only_def)
    qed
  qed
qed

lemma RealAgentHarness_iteration_cases:
  assumes "RealAgentHarness_iteration ev is_first session h w = (c, h', w')"
  shows "max_iterations h' = max_iterations h \<and> project_dir h' = project_dir h \<and> extends w w'"
    and "limit_reached (max_iterations h) session \<Longrightarrow>
           c = Break \<and> new_events w w' =
             [AgentEvent STATUS (run_id h) (project_id h) (step h + 1) (paused_data (max_iterations h))]"
    and "\<not> limit_reached (max_iterations h) session \<Longrightarrow>
         all_passing (RealAgentHarness_get_progress (feature_list w (project_dir h))) \<Longrightarrow>
           c = Break \<and> feature_list w' = feature_list w \<and> new_events w w' =
             [AgentEvent COMPLETE (run_id h) (project_id h) (step h + 1)
                (complete_data h (RealAgentHarness_get_progress (feature_list w (project_dir h))))]"
    and "\<not> limit_reached (max_iterations h) session \<Longrightarrow>
         \<not> all_passing (RealAgentHarness_get_progress (feature_list w (project_dir h))) \<Longrightarrow>
           c \<noteq> Break \<and> emits_only inner_event w w'"
proof -
  let ?P = "RealAgentHarness_get_progress (feature_list w (project_dir h))"
  let ?p = "if is_first \<and> session = 1 then INITIALIZER_PROMPT else CODING_PROMPT"
  let ?h1 = "h\<lparr>step := step h + 1\<rparr>"
  let ?w1 = "publish (AgentEvent STATUS (run_id h) (project_id h) (step h + 1)
               [(''status'', JStr ''running''), (''session'', JInt session),
                (''progress'', progress_json ?P),
                (''isInitializer'', JBool (is_first \<and> session = 1))]) w"
  obtain r h2 w2 where rs: "run_agent_session ev ?p session ?h1 ?w1 = (r, h2, w2)"
    by (cases "run_agent_session ev ?p session ?h1 ?w1") auto
  note i = run_agent_session_inner [OF rs]
  have e1: "emits_only inner_event w ?w1" by (rule emits_only_publish) simp
  have e2: "emits_only inner_event w w2" by (rule emits_only_trans [OF e1 conjunct1 [OF i]])
  have e4: "emits_only inner_event w
              (sleep 3000 (publish (AgentEvent STATUS (run_id h2) (project_id h2) (step h2 + 1)
                                      ((''status'', JStr s) # d)) w2))"
    if "s \<noteq> ''paused''" for s d
    by (rule emits_only_trans [OF e2], rule emits_only_trans [OF _ emits_only_sleep],
        rule emits_only_publish) (simp add: that)
  have run: "\<not> limit_reached (max_iterations h) session \<Longrightarrow> \<not> all_passing ?P \<Longrightarrow>
          c \<noteq> Break \<and> emits_only inner_event w w' \<and> max_iterations h' = max_iterations h
          \<and> project_dir h' = project_dir h"
  proof -
    assume nl: "\<not> limit_reached (max_iterations h) session" and np: "\<not> all_passing ?P"
    show ?thesis
    proof (cases r)
      case (Raised e)
      with assms rs nl np e2 i show ?thesis
        by (auto simp: RealAgentHarness_iteration_def emit_eq Let_def)
    next
      case (Returned sr)
      obtain st resp where sr: "sr = (st, resp)" by (cases sr)
      show ?thesis
      proof (cases "st = ''error''")
        case True
        with assms rs nl np Returned sr i
        have "c = Continue" "h' = h2\<lparr>step := step h2 + 1\<rparr>"
          "w' = sleep 3000 (publish (AgentEvent STATUS (run_id h2) (project_id h2) (step h2 + 1)
                  ((''status'', JStr ''error'') # [(''message'', JStr ''Session failed, will retry...'')])) w2)"
          by (simp_all add: RealAgentHarness_iteration_def emit_eq Let_def)
        with e4 [of "''error''"] i show ?thesis by simp
      next
        case False
        with assms rs nl np Returned sr i
        have "c = Continue" "h' = h2\<lparr>step := step h2 + 1\<rparr>"
          "w' = sleep 3000 (publish (AgentEvent STATUS (run_id h2) (project_id h2) (step h2 + 1)
                  ((''status'', JStr ''continuing'') # [(''message'', JStr (''Session '' @ str_int session
                                     @ '' complete, continuing in 3s...''))])) w2)"
          by (simp_all add: RealAgentHarness_iteration_def emit_eq Let_def)
        with e4 [of "''continuing''"] i show ?thesis by simp
      qed
    qed
  qed
  show "limit_reached (max_iterations h) session \<Longrightarrow>
           c = Break \<and> new_events w w' =
             [AgentEvent STATUS (run_id h) (project_id h) (step h + 1) (paused_data (max_iterations h))]"
    using assms by (auto simp: RealAgentHarness_iteration_def emit_eq)
  show "\<not> limit_reached (max_iterations h) session \<Longrightarrow> all_passing ?P \<Longrightarrow>
           c = Break \<and> feature_list w' = feature_list w \<and> new_events w w' =
             [AgentEvent COMPLETE (run_id h) (project_id h) (step h + 1) (complete_data h ?P)]"
    using assms by (auto simp: RealAgentHarness_iteration_def emit_eq Let_def publish_proj)
  show "\<not> limit_reached (max_iterations h) session \<Longrightarrow> \<not> all_passing ?P \<Longrightarrow>
           c \<noteq> Break \<and> emits_only inner_event w w'"
    using run by simp
  show "max_iterations h' = max_iterations h \<and> project_dir h' = project_dir h \<and> extends w w'"
  proof (cases "limit_reached (max_iterations h) session")
    case True
    with assms show ?thesis by (auto simp: RealAgentHarness_iteration_def emit_eq)
  next
    case False
    show ?thesis
    proof (cases "all_passing ?P")
      case True
      with False assms show ?thesis by (auto simp: RealAgentHarness_iteration_def emit_eq Let_def)
    next
      case np: False
      from run [OF False np] show ?thesis by (simp add: emits_only_def)
    qed
  qed
qed


section \<open>When the complete event is emitted\<close>

lemma get_progress_missing:
  "AgentHarness_get_progress Missing = zero_progress"
  "RealAgentHarness_get_progress Missing = zero_progress"
  by (simp_all add: AgentHarness_get_progress_def RealAgentHarness_get_progress_def)

lemma five_passing_progress:
  "AgentHarness_get_progress (Parsed (JList (map (\<lambda>i. example_feature i True) [1, 2, 3, 4, 5])))
     = \<lparr>p_total = 5, p_passing = 5, p_pending = 0\<rparr>"
  by (simp add: AgentHarness_get_progress_def example_feature_def dict_get_def)

text \<open>
  C4: in one pass through the body of either run loop, a \<^verbatim>\<open>complete\<close> event is among
  the events published if and only if the pass takes a progress snapshot (the limit check
  did not stop it first) and the snapshot has \<open>pending = 0\<close> and \<open>total > 0\<close>. In
  particular, when the ledger reads \<open>{total: 5, passing: 5, pending: 0}\<close> at the start
  of a run of a fresh harness whose limit check passes at session 1, the run publishes
  the \<^verbatim>\<open>complete\<close> event with \<^verbatim>\<open>featuresCompleted = 0\<close> and
  \<^verbatim>\<open>commitsMade = 0\<close> as its only event, runs no session and ends COMPLETED.
\<close>

theorem complete_iff_snapshot_all_passing:
  "((\<exists>e \<in> set (new_events w (snd (snd (coding_iteration session h w)))). event_type e = COMPLETE)
      \<longleftrightarrow> (\<not> limit_reached (max_iterations h) session
           \<and> all_passing (AgentHarness_get_progress (feature_list w (project_dir h)))))
   \<and> ((\<exists>e \<in> set (new_events w (snd (snd (RealAgentHarness_iteration ev is_first session hr w)))).
          event_type e = COMPLETE)
      \<longleftrightarrow> (\<not> limit_reached (max_iterations hr) session
           \<and> all_passing (RealAgentHarness_get_progress (feature_list w (project_dir hr)))))
   \<and> (AgentHarness_get_progress (feature_list w (project_dir h))
          = \<lparr>p_total = 5, p_passing = 5, p_pending = 0\<rparr>
       \<and> \<not> limit_reached (max_iterations h) 1
       \<and> features_completed h = 0 \<and> commits_made h = 0
      \<longrightarrow> run (Suc fuel) h w =
            Some (Returned (), h\<lparr>status := COMPLETED, step := step h + 1\<rparr>,
                  publish (AgentEvent COMPLETE (run_id h) (project_id h) (step h + 1)
                     [(''message'', JStr ''All features passing!''),
                      (''featuresCompleted'', JInt 0),
                      (''commitsMade'', JInt 0),
                      (''progress'', progress_json \<lparr>p_total = 5, p_passing = 5, p_pending = 0\<rparr>)]) w))"
proof (intro conjI impI)
  obtain c h' w' where it: "coding_iteration session h w = (c, h', w')"
    by (cases "coding_iteration session h w") auto
  note cs = coding_iteration_cases [OF it]
  show "(\<exists>e \<in> set (new_events w (snd (snd (coding_iteration session h w)))). event_type e = COMPLETE)
      \<longleftrightarrow> (\<not> limit_reached (max_iterations h) session
           \<and> all_passing (AgentHarness_get_progress (feature_list w (project_dir h))))"
  proof (cases "limit_reached (max_iterations h) session")
    case True
    with cs(2) it show ?thesis by simp
  next
    case False
    show ?thesis
    proof (cases "all_passing (AgentHarness_get_progress (feature_list w (project_dir h)))")
      case True
      with False cs(3) it show ?thesis by simp
    next
      case np: False
      from cs(4) [OF False np] emits_only_no_complete(1) [of w w'] it False np
      show ?thesis by simp
    qed
  qed
next
  obtain c h' w' where it: "RealAgentHarness_iteration ev is_first session hr w = (c, h', w')"
    by (cases "RealAgentHarness_iteration ev is_first session hr w") auto
  note cs = RealAgentHarness_iteration_cases [OF it]
  show "(\<exists>e \<in> set (new_events w (snd (snd (RealAgentHarness_iteration ev is_first session hr w)))).
          event_type e = COMPLETE)
      \<longleftrightarrow> (\<not> limit_reached (max_iterations hr) session
           \<and> all_passing (RealAgentHarness_get_progress (feature_list w (project_dir hr))))"
  proof (cases "limit_reached (max_iterations hr) session")
    case True
    with cs(2) it show ?thesis by simp
  next
    case False
    show ?thesis
    proof (cases "all_passing (RealAgentHarness_get_progress (feature_list w (project_dir hr)))")
      case True
      with False cs(3) it show ?thesis by simp
    next
      case np: False
      from cs(4) [OF False np] emits_only_no_complete(1) [of w w'] it False np
      show ?thesis by simp
    qed
  qed
next
  assume a: "AgentHarness_get_progress (feature_list w (project_dir h))
          = \<lparr>p_total = 5, p_passing = 5, p_pending = 0\<rparr>
       \<and> \<not> limit_reached (max_iterations h) 1
       \<and> features_completed h = 0 \<and> commits_made h = 0"
  then have nm: "feature_list w (project_dir h) \<noteq> Missing"
    by (auto simp: get_progress_missing zero_progress_def)
  from a have ap: "all_passing (AgentHarness_get_progress (feature_list w (project_dir h)))"
    by (simp add: all_passing_def)
  from a nm ap show "run (Suc fuel) h w =
            Some (Returned (), h\<lparr>status := COMPLETED, step := step h + 1\<rparr>,
                  publish (AgentEvent COMPLETE (run_id h) (project_id h) (step h + 1)
                     [(''message'', JStr ''All features passing!''),
                      (''featuresCompleted'', JInt 0),
                      (''commitsMade'', JInt 0),
                      (''progress'', progress_json \<lparr>p_total = 5, p_passing = 5, p_pending = 0\<rparr>)]) w)"
    by (simp add: run_def run_body_def is_first_run_def coding_iteration_def emit_eq complete_data_def)
qed

theorem complete_iff_snapshot_all_passing_witness:
  "AgentHarness_get_progress
     (feature_list (example_queued None (Parsed (JList (map (\<lambda>i. example_feature i True) [1, 2, 3, 4, 5]))))
        (project_dir (AgentHarness_init ''r'' ''p'' ''generations/p'' ''m'' None)))
     = \<lparr>p_total = 5, p_passing = 5, p_pending = 0\<rparr>
   \<and> run 1 (AgentHarness_init ''r'' ''p'' ''generations/p'' ''m'' None)
        (example_queued None (Parsed (JList (map (\<lambda>i. example_feature i True) [1, 2, 3, 4, 5]))))
     = Some (Returned (),
             (AgentHarness_init ''r'' ''p'' ''generations/p'' ''m'' None)\<lparr>status := COMPLETED, step := 1\<rparr>,
             publish (AgentEvent COMPLETE ''r'' ''p'' 1
                     [(''message'', JStr ''All features passing!''),
                      (''featuresCompleted'', JInt 0),
                      (''commitsMade'', JInt 0),
                      (''progress'', progress_json \<lparr>p_total = 5, p_passing = 5, p_pending = 0\<rparr>)])
               (example_queued None (Parsed (JList (map (\<lambda>i. example_feature i True) [1, 2, 3, 4, 5])))))"
proof -
  let ?hq = "AgentHarness_init ''r'' ''p'' ''generations/p'' ''m'' None"
  let ?wq = "example_queued None (Parsed (JList (map (\<lambda>i. example_feature i True) [1, 2, 3, 4, 5])))"
  have p: "AgentHarness_get_progress (feature_list ?wq (project_dir ?hq))
             = \<lparr>p_total = 5, p_passing = 5, p_pending = 0\<rparr>"
    using five_passing_progress by (simp add: AgentHarness_init_def example_queued_simps)
  have l: "\<not> limit_reached (max_iterations ?hq) 1"
    by (simp add: AgentHarness_init_def limit_reached_def)
  have z: "features_completed ?hq = 0 \<and> commits_made ?hq = 0"
    by (simp add: AgentHarness_init_def)
  have f: "run_id ?hq = ''r''" "project_id ?hq = ''p''" "step ?hq = 0"
    by (simp_all add: AgentHarness_init_def)
  from complete_iff_snapshot_all_passing [of ?wq 1 ?hq _ _ _ 0] p l z
  have "run (Suc 0) ?hq ?wq =
            Some (Returned (), ?hq\<lparr>status := COMPLETED, step := step ?hq + 1\<rparr>,
                  publish (AgentEvent COMPLETE (run_id ?hq) (project_id ?hq) (step ?hq + 1)
                     [(''message'', JStr ''All features passing!''),
                      (''featuresCompleted'', JInt 0),
                      (''commitsMade'', JInt 0),
                      (''progress'', progress_json \<lparr>p_total = 5, p_passing = 5, p_pending = 0\<rparr>)]) ?wq)"
    by blast
  then show ?thesis unfolding f using p by simp
qed

section \<open>A run without a session cap\<close>

lemma limit_never_reached_zero [simp]: "\<not> limit_reached (Some 0) session"
  by (simp add: limit_reached_def)

lemma new_events_nonempty_last:
  assumes "extends w w1" "extends w1 w2" "new_events w1 w2 \<noteq> []"
  shows "new_events w w2 \<noteq> [] \<and> last (new_events w w2) = last (new_events w1 w2)"
  using extends_trans(2) [OF assms(1,2)] assms(3) by simp

lemma no_paused_trans:
  assumes "extends w w1" "extends w1 w2"
    and "\<forall>e \<in> set (new_events w w1). \<not> is_status ''paused'' e"
    and "\<forall>e \<in> set (new_events w1 w2). \<not> is_status ''paused'' e"
  shows "\<forall>e \<in> set (new_events w w2). \<not> is_status ''paused'' e"
  using extends_trans(2) [OF assms(1,2)] assms(3,4) by auto

lemma run_coding_loop_uncapped:
  assumes "max_iterations h = Some 0"
    and "run_coding_loop fuel session h w = Some (r, h', w')"
  shows "extends w w' \<and> (\<forall>e \<in> set (new_events w w'). \<not> is_status ''paused'' e)
       \<and> (r = Returned () \<longrightarrow>
            new_events w w' \<noteq> [] \<and> event_type (last (new_events w w')) = COMPLETE
            \<and> all_passing (AgentHarness_get_progress (feature_list w' (project_dir h'))))"
  using assms
proof (induction fuel arbitrary: session h w)
  case 0
  then show ?case by simp
next
  case (Suc fuel)
  obtain c h1 w1 where it: "coding_iteration session h w = (c, h1, w1)"
    by (cases "coding_iteration session h w") auto
  note cs = coding_iteration_cases [OF it]
  have nl: "\<not> limit_reached (max_iterations h) session" using Suc.prems(1) by simp
  show ?case
  proof (cases "all_passing (AgentHarness_get_progress (feature_list w (project_dir h)))")
    case True
    note b = cs(3) [OF nl True]
    from b it Suc.prems(2) have eq: "r = Returned ()" "h' = h1" "w' = w1" by simp_all
    from b cs(1) True show ?thesis unfolding eq by (simp add: is_status_def)
  next
    case False
    note b = cs(4) [OF nl False]
    note np1 = emits_only_no_complete(2) [OF conjunct2 [OF b]]
    show ?thesis
    proof (cases c)
      case Break
      with b show ?thesis by simp
    next
      case (Raise e)
      with it Suc.prems(2) have eq: "r = Raised e" "h' = h1" "w' = w1" by simp_all
      from cs(1) np1 show ?thesis unfolding eq by simp
    next
      case Continue
      with it Suc.prems(2) have rest: "run_coding_loop fuel (session + 1) h1 w1 = Some (r, h', w')"
        by simp
      have m1: "max_iterations h1 = Some 0" using cs(1) Suc.prems(1) by simp
      note ih = Suc.IH [OF m1 rest]
      have ex: "extends w w1" using cs(1) by simp
      have ex2: "extends w1 w'" using ih by simp
      have "extends w w'" by (rule extends_trans(1) [OF ex ex2])
      moreover have "\<forall>e \<in> set (new_events w w'). \<not> is_status ''paused'' e"
        by (rule no_paused_trans [OF ex ex2 np1]) (use ih in simp)
      moreover have "r = Returned () \<longrightarrow>
            new_events w w' \<noteq> [] \<and> event_type (last (new_events w w')) = COMPLETE
            \<and> all_passing (AgentHarness_get_progress (feature_list w' (project_dir h')))"
        using ih new_events_nonempty_last [OF ex ex2] by auto
      ultimately show ?thesis by simp
    qed
  qed
qed

lemma RealAgentHarness_run_loop_uncapped:
  assumes "max_iterations h = Some 0"
    and "RealAgentHarness_run_loop ev is_first fuel session0 h w = Some (r, h', w')"
  shows "extends w w' \<and> (\<forall>e \<in> set (new_events w w'). \<not> is_status ''paused'' e)
       \<and> ((\<exists>s. r = Returned s) \<longrightarrow>
            new_events w w' \<noteq> [] \<and> event_type (last (new_events w w')) = COMPLETE
            \<and> all_passing (RealAgentHarness_get_progress (feature_list w' (project_dir h'))))"
  using assms
proof (induction fuel arbitrary: session0 h w)
  case 0
  then show ?case by simp
next
  case (Suc fuel)
  let ?s = "session0 + 1"
  obtain c h1 w1 where it: "RealAgentHarness_iteration ev is_first ?s h w = (c, h1, w1)"
    by (cases "RealAgentHarness_iteration ev is_first ?s h w") auto
  note cs = RealAgentHarness_iteration_cases [OF it]
  have nl: "\<not> limit_reached (max_iterations h) ?s" using Suc.prems(1) by simp
  show ?case
  proof (cases "all_passing (RealAgentHarness_get_progress (feature_list w (project_dir h)))")
    case True
    note b = cs(3) [OF nl True]
    from b it Suc.prems(2) have eq: "r = Returned ?s" "h' = h1" "w' = w1" by (simp_all add: Let_def)
    from b cs(1) True show ?thesis unfolding eq by (simp add: is_status_def)
  next
    case False
    note b = cs(4) [OF nl False]
    note np1 = emits_only_no_complete(2) [OF conjunct2 [OF b]]
    show ?thesis
    proof (cases c)
      case Break
      with b show ?thesis by simp
    next
      case (Raise e)
      with it Suc.prems(2) have eq: "r = Raised e" "h' = h1" "w' = w1" by (simp_all add: Let_def)
      from cs(1) np1 show ?thesis unfolding eq by simp
    next
      case Continue
      with it Suc.prems(2)
      have rest: "RealAgentHarness_run_loop ev is_first fuel ?s h1 w1 = Some (r, h', w')"
        by (simp add: Let_def)
      have m1: "max_iterations h1 = Some 0" using cs(1) Suc.prems(1) by simp
      note ih = Suc.IH [OF m1 rest]
      have ex: "extends w w1" using cs(1) by simp
      have ex2: "extends w1 w'" using ih by simp
      have "extends w w'" by (rule extends_trans(1) [OF ex ex2])
      moreover have "\<forall>e \<in> set (new_events w w'). \<not> is_status ''paused'' e"
        by (rule no_paused_trans [OF ex ex2 np1]) (use ih in simp)
      moreover have "(\<exists>s. r = Returned s) \<longrightarrow>
            new_events w w' \<noteq> [] \<and> event_type (last (new_events w w')) = COMPLETE
            \<and> all_passing (RealAgentHarness_get_progress (feature_list w' (project_dir h')))"
        using ih new_events_nonempty_last [OF ex ex2] by auto
      ultimately show ?thesis by simp
    qed
  qed
qed


text \<open>
  C9: a run whose \<open>max_iterations\<close> is 0 has no session cap. The limit check fails for
  every session index; and whenever either run loop ends, no \<^verbatim>\<open>status\<close> event with
  \<^verbatim>\<open>status=paused\<close> is among the events it published, and if it ended without an
  exception, the last event it published is the \<^verbatim>\<open>complete\<close> event and the ledger
  it leaves satisfies the completion condition.
\<close>

theorem zero_max_iterations_is_no_cap:
  "\<not> limit_reached (Some 0) session
   \<and> (max_iterations h = Some 0 \<and> run_coding_loop fuel session h w = Some (r, h', w')
      \<longrightarrow> extends w w' \<and> (\<forall>e \<in> set (new_events w w'). \<not> is_status ''paused'' e)
          \<and> (r = Returned () \<longrightarrow>
                new_events w w' \<noteq> [] \<and> event_type (last (new_events w w')) = COMPLETE
                \<and> all_passing (AgentHarness_get_progress (feature_list w' (project_dir h')))))
   \<and> (max_iterations hr = Some 0
       \<and> RealAgentHarness_run_loop ev is_first fuel session0 hr wr = Some (rr, hr', wr')
      \<longrightarrow> extends wr wr' \<and> (\<forall>e \<in> set (new_events wr wr'). \<not> is_status ''paused'' e)
          \<and> ((\<exists>s. rr = Returned s) \<longrightarrow>
                new_events wr wr' \<noteq> [] \<and> event_type (last (new_events wr wr')) = COMPLETE
                \<and> all_passing (RealAgentHarness_get_progress (feature_list wr' (project_dir hr')))))"
  using run_coding_loop_uncapped [of h fuel session w r h' w']
    RealAgentHarness_run_loop_uncapped [of hr ev is_first fuel session0 wr rr hr' wr']
  by (simp add: limit_reached_def)

lemma one_failing_ledger_facts:
  "AgentHarness_get_progress (Parsed (JList [example_feature 1 False]))
     = \<lparr>p_total = 1, p_passing = 0, p_pending = 1\<rparr>"
  "mark_passes (JList [example_feature 1 False]) 0 = Inr (JList [example_feature 1 True])"
  "AgentHarness_get_progress (Parsed (JList [example_feature 1 True]))
     = \<lparr>p_total = 1, p_passing = 1, p_pending = 0\<rparr>"
proof -
  show "AgentHarness_get_progress (Parsed (JList [example_feature 1 False]))
     = \<lparr>p_total = 1, p_passing = 0, p_pending = 1\<rparr>"
    by (simp add: example_feature_def AgentHarness_get_progress_def dict_get_def)
  show "AgentHarness_get_progress (Parsed (JList [example_feature 1 True]))
     = \<lparr>p_total = 1, p_passing = 1, p_pending = 0\<rparr>"
    by (simp add: example_feature_def AgentHarness_get_progress_def dict_get_def)
  have "py_index (Suc 0) 0 = Some 0" by (simp add: py_index_def)
  then show "mark_passes (JList [example_feature 1 False]) 0 = Inr (JList [example_feature 1 True])"
    by (simp add: example_feature_def)
qed

lemma five_passing_progress_real:
  "RealAgentHarness_get_progress (Parsed (JList (map (\<lambda>i. example_feature i True) [1, 2, 3, 4, 5])))
     = \<lparr>p_total = 5, p_passing = 5, p_pending = 0\<rparr>"
  by (simp add: RealAgentHarness_get_progress_def RealAgentHarness_progress_of_def
      example_feature_def dict_get_def)

theorem zero_max_iterations_is_no_cap_witness:
  "(\<exists>h' w'. run_coding_loop 2 1 (AgentHarness_init ''r'' ''p'' ''generations/p'' ''m'' (Some 0))
               (example_queued (Some 0) (Parsed (JList [example_feature 1 False])))
             = Some (Returned (), h', w')
      \<and> (\<forall>e \<in> set (new_events (example_queued (Some 0) (Parsed (JList [example_feature 1 False]))) w').
            \<not> is_status ''paused'' e)
      \<and> event_type (last (new_events (example_queued (Some 0) (Parsed (JList [example_feature 1 False]))) w'))
          = COMPLETE)
   \<and> (\<exists>h' w'. RealAgentHarness_run_loop
               \<lparr>sdk_available = False, api_key = None,
                engine = (\<lambda>p n f. \<lparr>stream = [], failure = None, ledger_after = f\<rparr>)\<rparr>
               False 1 0 (RealAgentHarness_init ''r'' ''p'' ''generations/p'' ''m'' (Some 0) None)
               (example_queued (Some 0) (Parsed (JList (map (\<lambda>i. example_feature i True) [1, 2, 3, 4, 5]))))
             = Some (Returned 1, h', w')
      \<and> event_type (last (new_events
            (example_queued (Some 0) (Parsed (JList (map (\<lambda>i. example_feature i True) [1, 2, 3, 4, 5])))) w'))
          = COMPLETE)"
proof (intro conjI)
  let ?hq = "AgentHarness_init ''r'' ''p'' ''generations/p'' ''m'' (Some 0)"
  let ?wq = "example_queued (Some 0) (Parsed (JList [example_feature 1 False]))"
  have mx: "max_iterations ?hq = Some 0" and dir: "project_dir ?hq = ''generations/p''"
    by (simp_all add: AgentHarness_init_def)
  have led: "feature_list ?wq (project_dir ?hq) = Parsed (JList [example_feature 1 False])"
    unfolding dir by (simp add: example_queued_simps)
  obtain c h1 w1 where it1: "coding_iteration 1 ?hq ?wq = (c, h1, w1)"
    by (cases "coding_iteration 1 ?hq ?wq") auto
  have nl: "\<not> limit_reached (max_iterations ?hq) 1" unfolding mx by simp
  have np: "\<not> all_passing (AgentHarness_get_progress (feature_list ?wq (project_dir ?hq)))"
    unfolding led by (simp add: one_failing_ledger_facts all_passing_def)
  have ld: "load_features (feature_list ?wq (project_dir ?hq)) = Inr (JList [example_feature 1 False])"
    unfolding led by simp
  have mk: "mark_passes (JList [example_feature 1 False])
              (p_passing (AgentHarness_get_progress (feature_list ?wq (project_dir ?hq))))
            = Inr (JList [example_feature 1 True])"
    unfolding led by (simp add: one_failing_ledger_facts del: mark_passes.simps)
  note s1 = coding_iteration_session [OF nl np ld mk it1]
  have led1: "feature_list w1 (project_dir h1) = Parsed (JList [example_feature 1 True])"
    using s1(3,4) by simp
  have nl2: "\<not> limit_reached (max_iterations h1) (1 + 1)" using s1(3) mx by simp
  have ap2: "all_passing (AgentHarness_get_progress (feature_list w1 (project_dir h1)))"
    unfolding led1 by (simp add: one_failing_ledger_facts all_passing_def)
  from coding_iteration_complete [OF nl2 ap2] it1 s1(1)
  obtain h2 w2 where loop: "run_coding_loop (Suc (Suc 0)) 1 ?hq ?wq = Some (Returned (), h2, w2)"
    by simp
  from zero_max_iterations_is_no_cap [where h = ?hq and fuel = "Suc (Suc 0)" and session = 1
      and w = ?wq and r = "Returned ()" and h' = h2 and w' = w2] mx loop
  have "(\<forall>e \<in> set (new_events ?wq w2). \<not> is_status ''paused'' e)
        \<and> event_type (last (new_events ?wq w2)) = COMPLETE"
    by blast
  with loop show "\<exists>h' w'. run_coding_loop 2 1 ?hq ?wq = Some (Returned (), h', w')
      \<and> (\<forall>e \<in> set (new_events ?wq w'). \<not> is_status ''paused'' e)
      \<and> event_type (last (new_events ?wq w')) = COMPLETE"
    by (auto simp: numeral_2_eq_2)
next
  let ?ev = "\<lparr>sdk_available = False, api_key = None,
                engine = (\<lambda>p n f. \<lparr>stream = [], failure = None, ledger_after = f\<rparr>)\<rparr>"
  let ?hr = "RealAgentHarness_init ''r'' ''p'' ''generations/p'' ''m'' (Some 0) None"
  let ?wr = "example_queued (Some 0) (Parsed (JList (map (\<lambda>i. example_feature i True) [1, 2, 3, 4, 5])))"
  have mx: "max_iterations ?hr = Some 0" and dir: "project_dir ?hr = ''generations/p''"
    by (simp_all add: RealAgentHarness_init_def)
  have led: "feature_list ?wr (project_dir ?hr)
               = Parsed (JList (map (\<lambda>i. example_feature i True) [1, 2, 3, 4, 5]))"
    unfolding dir by (simp add: example_queued_simps)
  obtain c h1 w1 where it: "RealAgentHarness_iteration ?ev False (0 + 1) ?hr ?wr = (c, h1, w1)"
    by (cases "RealAgentHarness_iteration ?ev False (0 + 1) ?hr ?wr") auto
  have nl: "\<not> limit_reached (max_iterations ?hr) (0 + 1)" unfolding mx by simp
  have ap: "all_passing (RealAgentHarness_get_progress (feature_list ?wr (project_dir ?hr)))"
    unfolding led five_passing_progress_real by (simp add: all_passing_def)
  from RealAgentHarness_iteration_cases(3) [OF it nl ap] it
  have loop: "RealAgentHarness_run_loop ?ev False (Suc 0) 0 ?hr ?wr = Some (Returned 1, h1, w1)"
    by (simp add: Let_def)
  from zero_max_iterations_is_no_cap [where hr = ?hr and ev = ?ev and is_first = False
      and fuel = "Suc 0" and session0 = 0 and wr = ?wr and rr = "Returned 1" and hr' = h1 and wr' = w1]
    mx loop
  have "event_type (last (new_events ?wr w1)) = COMPLETE" by blast
  with loop show "\<exists>h' w'. RealAgentHarness_run_loop ?ev False 1 0 ?hr ?wr = Some (Returned 1, h', w')
      \<and> event_type (last (new_events ?wr w')) = COMPLETE"
    by auto
qed

section \<open>A failed session\<close>

lemma run_agent_session_error:
  assumes "sdk_available ev" and "api_key ev = Some k" and "k \<noteq> []"
    and "failure (engine ev p n (feature_list w (project_dir h))) = Some e"
  shows "\<exists>h2 w2. run_agent_session ev p n h w = (Returned (''error'', msg e), h2, w2)"
proof -
  let ?h1 = "h\<lparr>step := step h + 1\<rparr>"
  let ?w1 = "publish (AgentEvent STATUS (run_id h) (project_id h) (step h + 1)
               [(''status'', JStr ''running''), (''session'', JInt n),
                (''message'', JStr ''Sending prompt to Claude...'')]) w"
  let ?r = "engine ev p n (feature_list w (project_dir h))"
  obtain t h2 w2 where rr: "receive_response (stream ?r) [] ?h1 ?w1 = (t, h2, w2)"
    by (cases "receive_response (stream ?r) [] ?h1 ?w1") auto
  with assms show ?thesis
    by (simp add: run_agent_session_def emit_eq Let_def publish_proj)
qed

lemma retry_message_mentions_retry: "contains ''retry'' ''Session failed, will retry...''"
  by simp

text \<open>
  C5: when the engine reports a failure in the session with index \<open>n\<close> (the SDK is
  there, the API key is set, and the engine's call for that session raises), the pass
  through the loop ends by publishing a \<^verbatim>\<open>status\<close> event whose message contains
  \<^verbatim>\<open>retry\<close>, sleeping 3000 ms, and continuing; the loop's next pass is the one with
  index \<open>n + 1\<close>, on the state the failed pass left, so the failed attempt has used up
  the index \<open>n\<close>: if the limit is reached at \<open>n + 1\<close>, the run pauses there.
\<close>

theorem failed_session_is_retried_at_next_index:
  assumes nl: "\<not> limit_reached (max_iterations h) n"
    and np: "\<not> all_passing (RealAgentHarness_get_progress (feature_list w (project_dir h)))"
    and sdk: "sdk_available ev" and key: "api_key ev = Some k" and nonempty: "k \<noteq> []"
    and fail: "failure (engine ev (if is_first \<and> n = 1 then INITIALIZER_PROMPT else CODING_PROMPT) n
                  (feature_list w (project_dir h))) = Some e"
    and it: "RealAgentHarness_iteration ev is_first n h w = (c, h', w')"
  shows "c = Continue
       \<and> max_iterations h' = max_iterations h
       \<and> (\<exists>as. trace w' = trace w @ as @
             [Publish (''agent:events:'' @ project_id h')
                (AgentEvent STATUS (run_id h') (project_id h') (step h')
                   [(''status'', JStr ''error''), (''message'', JStr ''Session failed, will retry...'')]),
              Sleep 3000])
       \<and> contains ''retry'' (message_of (AgentEvent STATUS (run_id h') (project_id h') (step h')
                   [(''status'', JStr ''error''), (''message'', JStr ''Session failed, will retry...'')]))
       \<and> RealAgentHarness_run_loop ev is_first (Suc (Suc fuel)) (n - 1) h w =
            (case RealAgentHarness_iteration ev is_first (n + 1) h' w' of
               (Break, h1, w1) \<Rightarrow> Some (Returned (n + 1), h1, w1)
             | (Raise x, h1, w1) \<Rightarrow> Some (Raised x, h1, w1)
             | (Continue, h1, w1) \<Rightarrow> RealAgentHarness_run_loop ev is_first fuel (n + 1) h1 w1)
       \<and> (limit_reached (max_iterations h) (n + 1) \<longrightarrow>
            RealAgentHarness_run_loop ev is_first (Suc (Suc fuel)) (n - 1) h w =
              Some (Returned (n + 1), h'\<lparr>step := step h' + 1\<rparr>,
                    publish (AgentEvent STATUS (run_id h') (project_id h') (step h' + 1)
                               (paused_data (max_iterations h))) w'))"
proof -
  let ?P = "RealAgentHarness_get_progress (feature_list w (project_dir h))"
  let ?p = "if is_first \<and> n = 1 then INITIALIZER_PROMPT else CODING_PROMPT"
  let ?h1 = "h\<lparr>step := step h + 1\<rparr>"
  let ?w1 = "publish (AgentEvent STATUS (run_id h) (project_id h) (step h + 1)
               [(''status'', JStr ''running''), (''session'', JInt n),
                (''progress'', progress_json ?P),
                (''isInitializer'', JBool (is_first \<and> n = 1))]) w"
  have fail1: "failure (engine ev ?p n (feature_list ?w1 (project_dir ?h1))) = Some e"
    using fail by (simp add: publish_proj)
  from run_agent_session_error [OF sdk key nonempty fail1] obtain h2 w2 where
    rs: "run_agent_session ev ?p n ?h1 ?w1 = (Returned (''error'', msg e), h2, w2)" by blast
  note i = run_agent_session_inner [OF rs]
  let ?E = "AgentEvent STATUS (run_id h2) (project_id h2) (step h2 + 1)
              [(''status'', JStr ''error''), (''message'', JStr ''Session failed, will retry...'')]"
  from it nl np rs have res: "c = Continue" "h' = h2\<lparr>step := step h2 + 1\<rparr>"
    "w' = sleep 3000 (publish ?E w2)"
    by (simp_all add: RealAgentHarness_iteration_def emit_eq Let_def)
  have "extends ?w1 w2" using i by (simp add: emits_only_def)
  then have ex: "extends w w2" by (rule extends_trans(1) [OF extends_publish(1)])
  then have tr2: "trace w2 = trace w @ new_actions w w2"
    by (metis append_take_drop_id extends_def new_actions_def)
  have mx: "max_iterations h' = max_iterations h" using i res by simp
  have tr: "trace w' = trace w @ new_actions w w2 @
             [Publish (''agent:events:'' @ project_id h')
                (AgentEvent STATUS (run_id h') (project_id h') (step h')
                   [(''status'', JStr ''error''), (''message'', JStr ''Session failed, will retry...'')]),
              Sleep 3000]"
    using tr2 res by (simp add: sleep_proj publish_proj)
  have msg: "contains ''retry'' (message_of (AgentEvent STATUS (run_id h') (project_id h') (step h')
                   [(''status'', JStr ''error''), (''message'', JStr ''Session failed, will retry...'')]))"
    by (simp add: message_of_def)
  have loop: "RealAgentHarness_run_loop ev is_first (Suc (Suc fuel)) (n - 1) h w =
            (case RealAgentHarness_iteration ev is_first (n + 1) h' w' of
               (Break, h1, w1) \<Rightarrow> Some (Returned (n + 1), h1, w1)
             | (Raise x, h1, w1) \<Rightarrow> Some (Raised x, h1, w1)
             | (Continue, h1, w1) \<Rightarrow> RealAgentHarness_run_loop ev is_first fuel (n + 1) h1 w1)"
    using it res(1) by (simp add: Let_def)
  have paused: "RealAgentHarness_run_loop ev is_first (Suc (Suc fuel)) (n - 1) h w =
              Some (Returned (n + 1), h'\<lparr>step := step h' + 1\<rparr>,
                    publish (AgentEvent STATUS (run_id h') (project_id h') (step h' + 1)
                               (paused_data (max_iterations h))) w')"
    if "limit_reached (max_iterations h) (n + 1)"
    using that mx unfolding loop by (simp add: RealAgentHarness_iteration_def emit_eq)
  from res(1) mx tr msg loop paused show ?thesis by blast
qed


theorem failed_session_is_retried_at_next_index_witness:
  "\<exists>c h' w'.
     RealAgentHarness_iteration
       \<lparr>sdk_available = True, api_key = Some ''key'',
        engine = (\<lambda>p n f. \<lparr>stream = [],
                             failure = (if n = 2 then Some (Exn ''RuntimeError'' ''engine failed'') else None),
                             ledger_after = f\<rparr>)\<rparr>
       False 2 (RealAgentHarness_init ''r'' ''p'' ''generations/p'' ''m'' None None)
       (example_queued None (Parsed (JList [example_feature 1 False]))) = (c, h', w')
     \<and> c = Continue
     \<and> (\<exists>as. trace w' = trace (example_queued None (Parsed (JList [example_feature 1 False]))) @ as @
             [Publish (''agent:events:'' @ project_id h')
                (AgentEvent STATUS (run_id h') (project_id h') (step h')
                   [(''status'', JStr ''error''), (''message'', JStr ''Session failed, will retry...'')]),
              Sleep 3000])
     \<and> RealAgentHarness_run_loop
         \<lparr>sdk_available = True, api_key = Some ''key'',
          engine = (\<lambda>p n f. \<lparr>stream = [],
                               failure = (if n = 2 then Some (Exn ''RuntimeError'' ''engine failed'') else None),
                               ledger_after = f\<rparr>)\<rparr>
         False 2 1 (RealAgentHarness_init ''r'' ''p'' ''generations/p'' ''m'' None None)
         (example_queued None (Parsed (JList [example_feature 1 False])))
       = (case RealAgentHarness_iteration
                 \<lparr>sdk_available = True, api_key = Some ''key'',
                  engine = (\<lambda>p n f. \<lparr>stream = [],
                               failure = (if n = 2 then Some (Exn ''RuntimeError'' ''engine failed'') else None),
                               ledger_after = f\<rparr>)\<rparr>
                 False 3 h' w' of
            (Break, h1, w1) \<Rightarrow> Some (Returned 3, h1, w1)
          | (Raise x, h1, w1) \<Rightarrow> Some (Raised x, h1, w1)
          | (Continue, h1, w1) \<Rightarrow>
              RealAgentHarness_run_loop
                \<lparr>sdk_available = True, api_key = Some ''key'',
                 engine = (\<lambda>p n f. \<lparr>stream = [],
                               failure = (if n = 2 then Some (Exn ''RuntimeError'' ''engine failed'') else None),
                               ledger_after = f\<rparr>)\<rparr>
                False 0 3 h1 w1)"
proof -
  let ?ev = "\<lparr>sdk_available = True, api_key = Some ''key'',
        engine = (\<lambda>p n f. \<lparr>stream = [],
                             failure = (if n = (2::int) then Some (Exn ''RuntimeError'' ''engine failed'') else None),
                             ledger_after = f\<rparr>)\<rparr>"
  let ?hr = "RealAgentHarness_init ''r'' ''p'' ''generations/p'' ''m'' None None"
  let ?wr = "example_queued None (Parsed (JList [example_feature 1 False]))"
  have mx: "max_iterations ?hr = None" and dir: "project_dir ?hr = ''generations/p''"
    by (simp_all add: RealAgentHarness_init_def)
  have led: "feature_list ?wr (project_dir ?hr) = Parsed (JList [example_feature 1 False])"
    unfolding dir by (simp add: example_queued_simps)
  have nl: "\<not> limit_reached (max_iterations ?hr) 2" unfolding mx by (simp add: limit_reached_def)
  have np: "\<not> all_passing (RealAgentHarness_get_progress (feature_list ?wr (project_dir ?hr)))"
    unfolding led
    by (simp add: RealAgentHarness_get_progress_def RealAgentHarness_progress_of_def
        example_feature_def dict_get_def all_passing_def)
  have sdk: "sdk_available ?ev" by simp
  have key: "api_key ?ev = Some ''key''" by simp
  have ne: "''key'' \<noteq> []" by simp
  have fail: "failure (engine ?ev (if False \<and> (2::int) = 1 then INITIALIZER_PROMPT else CODING_PROMPT) 2
                  (feature_list ?wr (project_dir ?hr))) = Some (Exn ''RuntimeError'' ''engine failed'')"
    by simp
  obtain c h' w' where it: "RealAgentHarness_iteration ?ev False 2 ?hr ?wr = (c, h', w')"
    by (cases "RealAgentHarness_iteration ?ev False 2 ?hr ?wr") auto
  note t = failed_session_is_retried_at_next_index [OF nl np sdk key ne fail it, of 0]
  from t have c: "c = Continue" by blast
  from t have tr: "\<exists>as. trace w' = trace ?wr @ as @
             [Publish (''agent:events:'' @ project_id h')
                (AgentEvent STATUS (run_id h') (project_id h') (step h')
                   [(''status'', JStr ''error''), (''message'', JStr ''Session failed, will retry...'')]),
              Sleep 3000]" by blast
  have arith: "(2::int) + 1 = 3" "(2::int) - 1 = 1" "Suc (Suc 0) = 2" by simp_all
  from t [unfolded arith]
  have loop: "RealAgentHarness_run_loop ?ev False 2 1 ?hr ?wr =
            (case RealAgentHarness_iteration ?ev False 3 h' w' of
               (Break, h1, w1) \<Rightarrow> Some (Returned 3, h1, w1)
             | (Raise x, h1, w1) \<Rightarrow> Some (Raised x, h1, w1)
             | (Continue, h1, w1) \<Rightarrow> RealAgentHarness_run_loop ?ev False 0 3 h1 w1)"
    by blast
  from it c tr loop show ?thesis by blast
qed

section \<open>Step numbers in a simulated session\<close>

text \<open>
  C3 fails on the code. Without the SDK, a session of RealAgentHarness is carried out by
  a fresh AgentHarness that has the same run id and publisher and a step counter of its
  own starting at 0. In such a pass through the loop the run's events carry the steps
  \<open>s + 1, s + 2, 1, 2, ..., 9, s + 3\<close>, where \<open>s\<close> is the counter of the
  RealAgentHarness before the pass: they are not strictly increasing, and in the first
  pass of a run (\<open>s = 0\<close>) the steps 1, 2 and 3 each occur twice.
\<close>

theorem simulated_session_restarts_step_counter:
  assumes nosdk: "\<not> sdk_available ev"
    and nl: "\<not> limit_reached (max_iterations h) n"
    and np: "\<not> all_passing (RealAgentHarness_get_progress (feature_list w (project_dir h)))"
    and coding: "\<not> (is_first \<and> n = 1)"
    and ld: "load_features (feature_list w (project_dir h)) = Inr fs"
    and mk: "mark_passes fs (p_passing (AgentHarness_get_progress (feature_list w (project_dir h)))) = Inr fs'"
    and it: "RealAgentHarness_iteration ev is_first n h w = (c, h', w')"
  shows "c = Continue
       \<and> map event_step (new_events w w')
           = [step h + 1, step h + 2, 1, 2, 3, 4, 5, 6, 7, 8, 9, step h + 3]
       \<and> (\<forall>e \<in> set (new_events w w'). event_run_id e = run_id h)
       \<and> (0 \<le> step h \<longrightarrow> \<not> sorted_wrt (<) (map event_step (new_events w w')))
       \<and> (step h = 0 \<longrightarrow> \<not> distinct (map event_step (new_events w w')))"
proof -
  let ?P = "RealAgentHarness_get_progress (feature_list w (project_dir h))"
  let ?h1 = "h\<lparr>step := step h + 1\<rparr>"
  let ?E1 = "AgentEvent STATUS (run_id h) (project_id h) (step h + 1)
               [(''status'', JStr ''running''), (''session'', JInt n),
                (''progress'', progress_json ?P),
                (''isInitializer'', JBool (is_first \<and> n = 1))]"
  let ?w1 = "publish ?E1 w"
  let ?h2 = "h\<lparr>step := step h + 2\<rparr>"
  let ?E2 = "AgentEvent STATUS (run_id h) (project_id h) (step h + 2)
               [(''status'', JStr ''simulating''),
                (''message'', JStr ''Claude SDK not available, using simulation'')]"
  let ?w2 = "publish ?E2 ?w1"
  let ?m = "AgentHarness_init (run_id h) (project_id h) (project_dir h) (model h) (Some 1)"
  obtain r m3 w3 where rs: "run_coding_session n ?m ?w2 = (r, m3, w3)"
    by (cases "run_coding_session n ?m ?w2") auto
  have md: "project_dir ?m = project_dir h" "step ?m = 0" "run_id ?m = run_id h"
    by (simp_all add: AgentHarness_init_def)
  have ld2: "load_features (feature_list ?w2 (project_dir ?m)) = Inr fs"
    using ld by (simp add: md publish_proj)
  have mk2: "mark_passes fs (p_passing (AgentHarness_get_progress (feature_list ?w2 (project_dir ?m)))) = Inr fs'"
    using mk by (simp add: md publish_proj)
  note ok = run_coding_session_ok [OF ld2 mk2 rs]
  let ?E3 = "AgentEvent STATUS (run_id h) (project_id h) (step h + 3)
               [(''status'', JStr ''continuing''),
                (''message'', JStr (''Session '' @ str_int n @ '' complete, continuing in 3s...''))]"
  have sim: "simulate_session CODING_PROMPT n ?h2 ?w2
               = (Returned (''continue'', []),
                  ?h2\<lparr>features_completed := features_completed m3, commits_made := commits_made m3\<rparr>, w3)"
    using rs ok(1) by (simp add: simulate_session_def Let_def)
  have ras: "run_agent_session ev CODING_PROMPT n ?h1 ?w1
               = (Returned (''continue'', []),
                  ?h2\<lparr>features_completed := features_completed m3, commits_made := commits_made m3\<rparr>, w3)"
  proof -
    have "run_agent_session ev CODING_PROMPT n ?h1 ?w1 = simulate_session CODING_PROMPT n ?h2 ?w2"
      using nosdk by (simp add: run_agent_session_def emit_eq add.commute)
    then show ?thesis by (simp only: sim)
  qed
  from it nl np coding ras have res: "c = Continue" "w' = sleep 3000 (publish ?E3 w3)"
    by (auto simp: RealAgentHarness_iteration_def emit_eq Let_def add.commute)
  have e2: "extends w ?w2" "new_events w ?w2 = [?E1, ?E2]"
    using extends_trans [OF extends_publish(1) [of w ?E1] extends_publish(1) [of ?w1 ?E2]]
    by simp_all
  have e3: "extends w w3" "new_events w w3 = [?E1, ?E2] @ new_events ?w2 w3"
    using extends_trans [OF e2(1) ok(6)] e2(2) by simp_all
  have e4: "extends w3 w'" "new_events w3 w' = [?E3]"
    using extends_trans [OF extends_publish(1) [of w3 ?E3] extends_sleep(1) [of "publish ?E3 w3" 3000]]
      res(2) by simp_all
  have all: "new_events w w' = [?E1, ?E2] @ new_events ?w2 w3 @ [?E3]"
    using extends_trans(2) [OF e3(1) e4(1)] e3(2) e4(2) by simp
  have steps: "map event_step (new_events w w')
           = [step h + 1, step h + 2, 1, 2, 3, 4, 5, 6, 7, 8, 9, step h + 3]"
    unfolding all using ok(8) by (simp add: md)
  have ids: "\<forall>e \<in> set (new_events w w'). event_run_id e = run_id h"
    unfolding all using ok(9) by (simp add: md)
  have unsorted: "\<not> sorted_wrt (<) (map event_step (new_events w w'))" if "0 \<le> step h"
    unfolding steps using that by simp
  have dup: "\<not> distinct (map event_step (new_events w w'))" if "step h = 0"
    unfolding steps using that by simp
  from res(1) steps ids unsorted dup show ?thesis by blast
qed

theorem simulated_session_restarts_step_counter_witness:
  "\<exists>c h' w'.
     RealAgentHarness_iteration
       \<lparr>sdk_available = False, api_key = None,
        engine = (\<lambda>p n f. \<lparr>stream = [], failure = None, ledger_after = f\<rparr>)\<rparr>
       False 1 (RealAgentHarness_init ''r'' ''p'' ''generations/p'' ''m'' None None)
       (example_queued None (Parsed (JList [example_feature 1 False, example_feature 2 False])))
       = (c, h', w')
     \<and> map event_step (new_events
           (example_queued None (Parsed (JList [example_feature 1 False, example_feature 2 False]))) w')
         = [1, 2, 1, 2, 3, 4, 5, 6, 7, 8, 9, 3]
     \<and> (\<forall>e \<in> set (new_events
           (example_queued None (Parsed (JList [example_feature 1 False, example_feature 2 False]))) w').
           event_run_id e = ''r'')"
proof -
  let ?ev = "\<lparr>sdk_available = False, api_key = None,
        engine = (\<lambda>p n f. \<lparr>stream = [], failure = None, ledger_after = f\<rparr>)\<rparr>"
  let ?fs = "[example_feature 1 False, example_feature 2 False]"
  let ?hr = "RealAgentHarness_init ''r'' ''p'' ''generations/p'' ''m'' None None"
  let ?wr = "example_queued None (Parsed (JList ?fs))"
  have mx: "max_iterations ?hr = None" and dir: "project_dir ?hr = ''generations/p''"
    and st: "step ?hr = 0" and rid: "run_id ?hr = ''r''"
    by (simp_all add: RealAgentHarness_init_def)
  have led: "feature_list ?wr (project_dir ?hr) = Parsed (JList ?fs)"
    unfolding dir by (simp add: example_queued_simps)
  have nosdk: "\<not> sdk_available ?ev" by simp
  have nl: "\<not> limit_reached (max_iterations ?hr) 1" unfolding mx by (simp add: limit_reached_def)
  have np: "\<not> all_passing (RealAgentHarness_get_progress (feature_list ?wr (project_dir ?hr)))"
    unfolding led
    by (simp add: RealAgentHarness_get_progress_def RealAgentHarness_progress_of_def
        example_feature_def dict_get_def all_passing_def)
  have coding: "\<not> (False \<and> (1::int) = 1)" by simp
  have ld: "load_features (feature_list ?wr (project_dir ?hr)) = Inr (JList ?fs)"
    unfolding led by simp
  have pend: "p_pending (AgentHarness_get_progress (Parsed (JList ?fs))) \<noteq> 0"
    by (simp add: example_ledger_facts)
  from list_ledger_markable [OF example_ledger_facts(1) pend] obtain fs' where
    mk: "mark_passes (JList ?fs)
           (p_passing (AgentHarness_get_progress (feature_list ?wr (project_dir ?hr)))) = Inr fs'"
    unfolding led by blast
  obtain c h' w' where it: "RealAgentHarness_iteration ?ev False 1 ?hr ?wr = (c, h', w')"
    by (cases "RealAgentHarness_iteration ?ev False 1 ?hr ?wr") auto
  note t = simulated_session_restarts_step_counter [OF nosdk nl np coding ld mk it]
  from t have s1: "map event_step (new_events ?wr w') = [1, 2, 1, 2, 3, 4, 5, 6, 7, 8, 9, 3]"
    unfolding st by simp
  from t have s2: "\<forall>e \<in> set (new_events ?wr w'). event_run_id e = ''r''"
    unfolding rid by blast
  show ?thesis
    by (rule exI [of _ c], rule exI [of _ h'], rule exI [of _ w'], intro conjI) (rule it s1 s2)+
qed

end
